theory Spec2Isabelle
  imports Complex_Main "HOL-Library.Log_Nat"
begin

section \<open>Values of the host language\<close>

text \<open>
  Exceptions are values. \<open>str_exn\<close> is Python's \<open>str(e)\<close>, the message of the exception.
  \<open>APIError\<close> stands for whatever the two external clients (the record store, the
  summarization provider) raise.
\<close>

datatype exn = APIError string | ValueError string | TypeError string | IndexError string

fun str_exn :: "exn \<Rightarrow> string" where
  "str_exn (APIError m) = m"
| "str_exn (ValueError m) = m"
| "str_exn (TypeError m) = m"
| "str_exn (IndexError m) = m"

text \<open>
  A function that returns \<open>response.data[0] if response.data else {}\<close> returns either a
  row or the empty dictionary.
\<close>

datatype 'r row = Empty_dict | Row 'r

fun first_or_empty :: "'r list \<Rightarrow> 'r row" where
  "first_or_empty [] = Empty_dict"
| "first_or_empty (r # _) = Row r"

text \<open>Free-form payloads (\<open>Dict[str, Any]\<close>) are JSON objects: association lists of JSON values.\<close>

datatype json = JNull | JBool bool | JInt int | JStr string | JObj "(string \<times> json) list"

type_synonym payload = "(string \<times> json) list"

definition dict_get :: "(string \<times> 'v) list \<Rightarrow> string \<Rightarrow> 'v \<Rightarrow> 'v" where
  "dict_get d k dflt = (case map_of d k of None \<Rightarrow> dflt | Some v \<Rightarrow> v)"

text \<open>
  \<open>d[k] = v\<close> on a Python dictionary: an existing key keeps its place, a new key goes last.
\<close>

fun dict_set :: "(string \<times> 'v) list \<Rightarrow> string \<Rightarrow> 'v \<Rightarrow> (string \<times> 'v) list" where
  "dict_set [] k v = [(k, v)]"
| "dict_set ((k', v') # d) k v = (if k' = k then (k, v) # d else (k', v') # dict_set d k v)"

text \<open>Python's \<open>str\<close> of an integer: decimal digits, a minus sign for a negative number.\<close>

fun str_nat :: "nat \<Rightarrow> string" where
  "str_nat n = (if n < 10 then [''0123456789'' ! n]
                else str_nat (n div 10) @ [''0123456789'' ! (n mod 10)])"

declare str_nat.simps [simp del]

definition str_int :: "int \<Rightarrow> string" where
  "str_int i = (if i < 0 then ''-'' @ str_nat (nat (- i)) else str_nat (nat i))"

text \<open>
  A \<open>datetime\<close> is a number of microseconds on the UTC time line, and so is a
  \<open>timedelta\<close>. The code stores a datetime as its \<open>isoformat()\<close> text and reads it back with
  \<open>fromisoformat\<close>; the two are inverse to each other, so the stored value is the datetime.

  \<open>timedelta.total_seconds()\<close> divides the microseconds by \<open>10**6\<close> with Python's true
  division of integers, whose result is the double nearest to the quotient, ties going
  to the even significand. \<open>round_double\<close> is that rounding for a double of 53 significant
  bits: \<open>binary_exponent x\<close> is the \<open>e\<close> with \<open>2^e \<le> x < 2^(e+1)\<close>, and the doubles around
  \<open>x\<close> are the multiples of \<open>2^(e-52)\<close>. (The datetimes Python can hold are less than
  \<open>10^4\<close> years apart, far from the largest and the smallest double.) \<open>py_int\<close> is
  Python's \<open>int\<close> of a float, which discards the fractional part (it rounds toward zero).
\<close>

type_synonym datetime = int

definition round_half_even :: "rat \<Rightarrow> int" where
  "round_half_even q =
     (let f = \<lfloor>q\<rfloor>; r = q - of_int f
      in if r < 1 / 2 then f else if 1 / 2 < r then f + 1 else if even f then f else f + 1)"

definition binary_exponent :: "rat \<Rightarrow> int" where
  "binary_exponent x =
     (case quotient_of x of
        (a, b) \<Rightarrow> (let e0 = bitlen a - bitlen b in if 2 powi e0 \<le> x then e0 else e0 - 1))"

definition round_double :: "rat \<Rightarrow> rat" where
  "round_double x =
     (if x = 0 then 0
      else (let ulp = 2 powi (binary_exponent \<bar>x\<bar> - 52)
            in sgn x * of_int (round_half_even (\<bar>x\<bar> / ulp)) * ulp))"

definition total_seconds :: "int \<Rightarrow> rat" where
  "total_seconds delta = round_double (of_int delta / 1000000)"

definition py_int :: "rat \<Rightarrow> int" where
  "py_int x = (if 0 \<le> x then \<lfloor>x\<rfloor> else \<lceil>x\<rceil>)"


section \<open>Data model\<close>

record session =
  session_id :: string
  user_id :: string
  start_time :: datetime
  end_time :: "datetime option"
  duration_seconds :: "int option"
  summary :: "string option"
  status :: string

record event =
  ev_session_id :: string
  event_type :: string
  timestamp :: datetime
  data :: payload
  metadata :: payload

record message =
  role :: string
  content :: json
  msg_timestamp :: datetime

record stats =
  total_events :: nat
  user_messages :: nat
  assistant_responses :: nat
  function_calls :: nat
  event_types :: "(string \<times> nat) list"


section \<open>The record store\<close>

text \<open>
  Modelled from the spec: the record store client (\<open>supabase.Client\<close>) is an external
  collaborator. Following section 6 of the specification it holds two kinds of records:
  \<open>sessions\<close>, with primary key \<open>session_id\<close>, and \<open>session_events\<close>, with no key.
  Every \<open>execute()\<close> may fail: \<open>faults\<close> scripts the outcome of the calls still to come
  (\<open>Some e\<close>: the call raises \<open>e\<close> and changes nothing; \<open>None\<close>, or a script that has run
  out: the call goes through).
\<close>

record supabase =
  sessions :: "string \<rightharpoonup> session"
  session_events :: "event list"
  faults :: "exn option list"

definition execute :: "supabase \<Rightarrow> exn option \<times> supabase" where
  "execute db = (case faults db of [] \<Rightarrow> (None, db) | f # fs \<Rightarrow> (f, db\<lparr>faults := fs\<rparr>))"

definition insert_session :: "supabase \<Rightarrow> session \<Rightarrow> (exn + session list) \<times> supabase" where
  "insert_session db r =
     (case execute db of
        (Some e, db') \<Rightarrow> (Inl e, db')
      | (None, db') \<Rightarrow>
          (case sessions db' (session_id r) of
             Some _ \<Rightarrow> (Inl (APIError ''duplicate key value violates unique constraint''), db')
           | None \<Rightarrow> (Inr [r], db'\<lparr>sessions := (sessions db')(session_id r \<mapsto> r)\<rparr>)))"

definition select_session :: "supabase \<Rightarrow> string \<Rightarrow> (exn + session list) \<times> supabase" where
  "select_session db sid =
     (case execute db of
        (Some e, db') \<Rightarrow> (Inl e, db')
      | (None, db') \<Rightarrow>
          (case sessions db' sid of None \<Rightarrow> (Inr [], db') | Some r \<Rightarrow> (Inr [r], db')))"

text \<open>An update that matches no row is not an error: it answers with no rows.\<close>

definition update_session ::
  "supabase \<Rightarrow> string \<Rightarrow> (session \<Rightarrow> session) \<Rightarrow> (exn + session list) \<times> supabase" where
  "update_session db sid patch =
     (case execute db of
        (Some e, db') \<Rightarrow> (Inl e, db')
      | (None, db') \<Rightarrow>
          (case sessions db' sid of
             None \<Rightarrow> (Inr [], db')
           | Some r \<Rightarrow> (Inr [patch r], db'\<lparr>sessions := (sessions db')(sid \<mapsto> patch r)\<rparr>)))"

definition insert_event :: "supabase \<Rightarrow> event \<Rightarrow> (exn + event list) \<times> supabase" where
  "insert_event db e =
     (case execute db of
        (Some x, db') \<Rightarrow> (Inl x, db')
      | (None, db') \<Rightarrow> (Inr [e], db'\<lparr>session_events := session_events db' @ [e]\<rparr>))"

text \<open>
  \<open>select("*").eq("session_id", sid)\<close>, \<open>.in_("event_type", types)\<close> when the caller asks
  for it, \<open>.order("timestamp", desc=False)\<close>.
\<close>

definition select_events ::
  "supabase \<Rightarrow> string \<Rightarrow> string list option \<Rightarrow> (exn + event list) \<times> supabase" where
  "select_events db sid types =
     (case execute db of
        (Some x, db') \<Rightarrow> (Inl x, db')
      | (None, db') \<Rightarrow>
          (let mine = filter (\<lambda>e. ev_session_id e = sid) (session_events db');
               wanted = (case types of None \<Rightarrow> mine
                         | Some ts \<Rightarrow> filter (\<lambda>e. event_type e \<in> set ts) mine)
           in (Inr (sort_key timestamp wanted), db')))"


section \<open>DatabaseManager\<close>

text \<open>
  Each operation takes the store and returns its result with the store it leaves behind.
  A raised exception is \<open>Inl\<close>. \<open>now\<close> is the reading of \<open>datetime.utcnow()\<close> the operation
  takes.
\<close>

definition create_session ::
  "supabase \<Rightarrow> datetime \<Rightarrow> string \<Rightarrow> string \<Rightarrow> (exn + session) \<times> supabase" where
  "create_session db now sid uid =
     (let session_data = \<lparr>session_id = sid, user_id = uid, start_time = now, end_time = None,
                           duration_seconds = None, summary = None, status = ''active''\<rparr>
      in case insert_session db session_data of
           (Inl e, db') \<Rightarrow> (Inl e, db')
         | (Inr _, db') \<Rightarrow> (Inr session_data, db'))"

definition end_session ::
  "supabase \<Rightarrow> datetime \<Rightarrow> string \<Rightarrow> (exn + session row) \<times> supabase" where
  "end_session db now sid =
     (case select_session db sid of
        (Inl e, db1) \<Rightarrow> (Inl e, db1)
      | (Inr [], db1) \<Rightarrow> (Inl (ValueError (''Session '' @ sid @ '' not found'')), db1)
      | (Inr (r # _), db1) \<Rightarrow>
          (let t0 = start_time r;
               t1 = now;
               duration = py_int (total_seconds (t1 - t0))
           in case update_session db1 sid
                     (\<lambda>s. s\<lparr>end_time := Some t1, duration_seconds := Some duration,
                             status := ''completed''\<rparr>) of
                (Inl e, db2) \<Rightarrow> (Inl e, db2)
              | (Inr rows, db2) \<Rightarrow> (Inr (first_or_empty rows), db2)))"

definition update_session_summary ::
  "supabase \<Rightarrow> string \<Rightarrow> string \<Rightarrow> (exn + session row) \<times> supabase" where
  "update_session_summary db sid text =
     (case update_session db sid (\<lambda>s. s\<lparr>summary := Some text, status := ''summarized''\<rparr>) of
        (Inl e, db') \<Rightarrow> (Inl e, db')
      | (Inr rows, db') \<Rightarrow> (Inr (first_or_empty rows), db'))"

text \<open>\<open>metadata or {}\<close>: a missing and an empty dictionary both give the empty one.\<close>

definition log_event ::
  "supabase \<Rightarrow> datetime \<Rightarrow> string \<Rightarrow> string \<Rightarrow> payload \<Rightarrow> payload option
     \<Rightarrow> (exn + event row) \<times> supabase" where
  "log_event db now sid ty d md =
     (let event_data = \<lparr>ev_session_id = sid, event_type = ty, timestamp = now, data = d,
                         metadata = (case md of None \<Rightarrow> [] | Some m \<Rightarrow> m)\<rparr>
      in case insert_event db event_data of
           (Inl e, db') \<Rightarrow> (Inr Empty_dict, db')
         | (Inr rows, db') \<Rightarrow> (Inr (first_or_empty rows), db'))"

text \<open>\<open>if event_types:\<close> is false for \<open>None\<close> and for the empty list.\<close>

definition get_session_events ::
  "supabase \<Rightarrow> string \<Rightarrow> string list option \<Rightarrow> event list \<times> supabase" where
  "get_session_events db sid types =
     (case select_events db sid (case types of Some (t # ts) \<Rightarrow> Some (t # ts) | _ \<Rightarrow> None) of
        (Inl e, db') \<Rightarrow> ([], db')
      | (Inr rows, db') \<Rightarrow> (rows, db'))"

definition get_session :: "supabase \<Rightarrow> string \<Rightarrow> session option \<times> supabase" where
  "get_session db sid =
     (case select_session db sid of
        (Inl e, db') \<Rightarrow> (None, db')
      | (Inr [], db') \<Rightarrow> (None, db')
      | (Inr (r # _), db') \<Rightarrow> (Some r, db'))"

text \<open>The loop of \<open>get_conversation_history\<close>, with the list it appends to.\<close>

fun conversation_loop :: "event list \<Rightarrow> message list \<Rightarrow> message list" where
  "conversation_loop [] conversation = conversation"
| "conversation_loop (e # es) conversation =
     (if event_type e = ''user_message'' then
        conversation_loop es
          (conversation @ [\<lparr>role = ''user'', content = dict_get (data e) ''content'' (JStr ''''),
                             msg_timestamp = timestamp e\<rparr>])
      else if event_type e = ''assistant_response'' then
        conversation_loop es
          (conversation @ [\<lparr>role = ''assistant'',
                             content = dict_get (data e) ''content'' (JStr ''''),
                             msg_timestamp = timestamp e\<rparr>])
      else conversation_loop es conversation)"

definition get_conversation_history :: "supabase \<Rightarrow> string \<Rightarrow> message list \<times> supabase" where
  "get_conversation_history db sid =
     (case get_session_events db sid (Some [''user_message'', ''assistant_response'']) of
        (events, db') \<Rightarrow> (conversation_loop events [], db'))"

text \<open>
  \<open>sum(1 for e in events if e["event_type"] == t)\<close>, and the loop that counts every type
  into the dictionary \<open>stats["event_types"]\<close>.
\<close>

definition count_type :: "event list \<Rightarrow> string \<Rightarrow> nat" where
  "count_type events t = sum_list (map (\<lambda>e. 1) (filter (\<lambda>e. event_type e = t) events))"

fun count_event_types :: "event list \<Rightarrow> (string \<times> nat) list \<Rightarrow> (string \<times> nat) list" where
  "count_event_types [] types = types"
| "count_event_types (e # es) types =
     count_event_types es
       (dict_set types (event_type e) (dict_get types (event_type e) 0 + 1))"

text \<open>
  Nothing in the body of \<open>get_session_statistics\<close> can raise on well-typed events
  (\<open>get_session_events\<close> catches the store's failure itself), so its handler, which would
  return \<open>{}\<close>, is never entered and the result is always the filled structure.
\<close>

definition get_session_statistics :: "supabase \<Rightarrow> string \<Rightarrow> stats \<times> supabase" where
  "get_session_statistics db sid =
     (case get_session_events db sid None of
        (events, db') \<Rightarrow>
          (\<lparr>total_events = length events,
            user_messages = count_type events ''user_message'',
            assistant_responses = count_type events ''assistant_response'',
            function_calls = count_type events ''function_call'',
            event_types = count_event_types events []\<rparr>, db'))"


section \<open>SessionProcessor\<close>

definition format_duration :: "int \<Rightarrow> string" where
  "format_duration seconds =
     (if seconds < 60 then str_int seconds @ '' seconds''
      else if seconds < 3600 then
        (let minutes = seconds div 60; secs = seconds mod 60
         in str_int minutes @ '' minutes, '' @ str_int secs @ '' seconds'')
      else
        (let hours = seconds div 3600; minutes = (seconds mod 3600) div 60
         in str_int hours @ '' hours, '' @ str_int minutes @ '' minutes''))"

text \<open>
  The summarization provider (\<open>anthropic.Anthropic\<close>) is an external collaborator.
  \<open>generate_summary\<close> calls it at most once, so the client is given by the outcome of that
  call: the exception it raises, or the texts of the content blocks of the message it
  returns. \<open>calls\<close> counts the invocations. The text of the prompt is assembled from total
  string operations and has no influence on the control flow; it is not represented.
\<close>

record anthropic =
  reply :: "exn + string list"
  calls :: nat

definition messages_create :: "anthropic \<Rightarrow> (exn + string list) \<times> anthropic" where
  "messages_create llm = (reply llm, llm\<lparr>calls := calls llm + 1\<rparr>)"

text \<open>
  The \<open>try\<close> block of \<open>generate_summary\<close>. \<open>session.get("duration_seconds", 0)\<close> is \<open>None\<close>
  for a session that has not been ended (the key is there, with no value), and
  \<open>_format_duration(None)\<close> raises at its first comparison. \<open>message.content[0]\<close> raises on a
  message with no content block.
\<close>

definition generate_summary_try ::
  "anthropic \<Rightarrow> message list \<Rightarrow> session \<Rightarrow> (exn + string) \<times> anthropic" where
  "generate_summary_try llm conversation s =
     (case duration_seconds s of
        None \<Rightarrow>
          (Inl (TypeError
             (CHR 0x27 # ''<' not supported between instances of 'NoneType' and 'int''
                @ [CHR 0x27])), llm)
      | Some duration \<Rightarrow>
          (let duration_str = format_duration duration
           in case messages_create llm of
                (Inl e, llm') \<Rightarrow> (Inl e, llm')
              | (Inr [], llm') \<Rightarrow> (Inl (IndexError ''list index out of range''), llm')
              | (Inr (text # _), llm') \<Rightarrow> (Inr text, llm')))"

definition generate_summary ::
  "anthropic \<Rightarrow> message list \<Rightarrow> session \<Rightarrow> (exn + string) \<times> anthropic" where
  "generate_summary llm conversation s =
     (case generate_summary_try llm conversation s of
        (Inl e, llm') \<Rightarrow> (Inr (''Error generating summary: '' @ str_exn e), llm')
      | (Inr text, llm') \<Rightarrow> (Inr text, llm'))"

definition stats_json :: "stats \<Rightarrow> json" where
  "stats_json st =
     JObj [(''total_events'', JInt (int (total_events st))),
           (''user_messages'', JInt (int (user_messages st))),
           (''assistant_responses'', JInt (int (assistant_responses st))),
           (''function_calls'', JInt (int (function_calls st))),
           (''event_types'', JObj (map (\<lambda>(t, n). (t, JInt (int n))) (event_types st)))]"

text \<open>
  The \<open>try\<close> block of \<open>process_session\<close>: \<open>Inr\<close> when it runs to its end or returns early,
  \<open>Inl\<close> when an exception leaves it. \<open>now\<close> is the clock reading of the one event it logs.
\<close>

definition process_session_try ::
  "anthropic \<Rightarrow> supabase \<Rightarrow> datetime \<Rightarrow> string \<Rightarrow> (exn + unit) \<times> supabase \<times> anthropic" where
  "process_session_try llm db now sid =
     (case get_session db sid of
        (None, db1) \<Rightarrow> (Inr (), db1, llm)
      | (Some s, db1) \<Rightarrow>
          (case get_conversation_history db1 sid of
             (conversation, db2) \<Rightarrow>
               (case (if conversation = []
                      then (Inr ''No conversation data available for this session.'', llm)
                      else generate_summary llm conversation s) of
                  (Inl e, llm') \<Rightarrow> (Inl e, db2, llm')
                | (Inr text, llm') \<Rightarrow>
                    (case update_session_summary db2 sid text of
                       (Inl e, db3) \<Rightarrow> (Inl e, db3, llm')
                     | (Inr _, db3) \<Rightarrow>
                         (case get_session_statistics db3 sid of
                            (st, db4) \<Rightarrow>
                              (case log_event db4 now sid ''post_processing_complete''
                                      [(''summary_generated'', JBool True),
                                       (''summary_length'', JInt (int (length text))),
                                       (''statistics'', stats_json st)] None of
                                 (Inl e, db5) \<Rightarrow> (Inl e, db5, llm')
                               | (Inr _, db5) \<Rightarrow> (Inr (), db5, llm')))))))"

text \<open>
  \<open>process_session\<close> with its handler: an exception that leaves the \<open>try\<close> block is logged
  as a \<open>post_processing_error\<close> event, and a failure of that is passed over.
\<close>

definition process_session ::
  "anthropic \<Rightarrow> supabase \<Rightarrow> datetime \<Rightarrow> string \<Rightarrow> supabase \<times> anthropic" where
  "process_session llm db now sid =
     (case process_session_try llm db now sid of
        (Inr _, db', llm') \<Rightarrow> (db', llm')
      | (Inl e, db', llm') \<Rightarrow>
          (case log_event db' now sid ''post_processing_error''
                  [(''error'', JStr (str_exn e))] None of
             (_, db'') \<Rightarrow> (db'', llm')))"


section \<open>Observing a session over a run of Ledger operations\<close>

text \<open>
  The three operations that write a session's status, applied to one session identifier.
  An operation that raises leaves the store as it was when the exception left it.
\<close>

datatype ledger_op = CreateSession string datetime | EndSession datetime | UpdateSummary string

fun apply_op :: "supabase \<Rightarrow> string \<Rightarrow> ledger_op \<Rightarrow> supabase" where
  "apply_op db sid (CreateSession uid now) = snd (create_session db now sid uid)"
| "apply_op db sid (EndSession now) = snd (end_session db now sid)"
| "apply_op db sid (UpdateSummary text) = snd (update_session_summary db sid text)"

definition status_of :: "supabase \<Rightarrow> string \<Rightarrow> string list" where
  "status_of db sid = (case sessions db sid of None \<Rightarrow> [] | Some s \<Rightarrow> [status s])"

text \<open>The status of the session before the run and after each of its operations.\<close>

fun observe :: "supabase \<Rightarrow> string \<Rightarrow> ledger_op list \<Rightarrow> string list" where
  "observe db sid [] = status_of db sid"
| "observe db sid (x # xs) = status_of db sid @ observe (apply_op db sid x) sid xs"

definition status_rank :: "string \<Rightarrow> nat" where
  "status_rank st = (if st = ''active'' then 0 else if st = ''completed'' then 1 else 2)"

fun is_end :: "ledger_op \<Rightarrow> bool" where
  "is_end (EndSession _) = True"
| "is_end _ = False"

fun is_summary :: "ledger_op \<Rightarrow> bool" where
  "is_summary (UpdateSummary _) = True"
| "is_summary _ = False"

text \<open>No \<open>endSession\<close> comes after an \<open>updateSummary\<close>.\<close>

fun end_before_summary :: "ledger_op list \<Rightarrow> bool" where
  "end_before_summary [] = True"
| "end_before_summary (x # xs) =
     ((if is_summary x then \<not> list_ex is_end xs else True) \<and> end_before_summary xs)"


section \<open>Vocabulary of the properties\<close>

text \<open>Reading a decimal numeral back, to say what \<open>str_nat\<close> writes.\<close>

fun decimal_value :: "string \<Rightarrow> nat" where
  "decimal_value cs = foldl (\<lambda>acc c. 10 * acc + (of_char c - 48)) 0 cs"

text \<open>A difference of microseconds in seconds, exactly.\<close>

definition exact_seconds :: "int \<Rightarrow> rat" where
  "exact_seconds delta = of_int delta / 1000000"

text \<open>The next \<open>n\<close> calls of the store go through.\<close>

definition calls_succeed :: "nat \<Rightarrow> supabase \<Rightarrow> bool" where
  "calls_succeed n db = list_all (\<lambda>f. f = None) (take n (faults db))"



text \<open>A list of at most one status that is one of the three the code writes.\<close>

definition lifecycle :: "string list \<Rightarrow> bool" where
  "lifecycle sts =
     (sts = [] \<or> sts = [''active''] \<or> sts = [''completed''] \<or> sts = [''summarized''])"

text \<open>
  The summary \<open>process_session\<close> settles on: the placeholder for an empty conversation,
  the result of \<open>generate_summary\<close> otherwise.
\<close>

definition chosen_summary ::
  "anthropic \<Rightarrow> message list \<Rightarrow> session \<Rightarrow> (exn + string) \<times> anthropic" where
  "chosen_summary llm conversation s =
     (if conversation = []
      then (Inr ''No conversation data available for this session.'', llm)
      else generate_summary llm conversation s)"

text \<open>
  Stores to run the code on. \<open>quiet_store\<close> and \<open>spoken_store\<close> hold one ended session; in
  the first the client left without a word, in the second one message was answered.
\<close>

definition ended_session :: session where
  "ended_session = \<lparr>session_id = ''s1'', user_id = ''user_s1'', start_time = 1000000,
                      end_time = Some 3500000, duration_seconds = Some 2, summary = None,
                      status = ''completed''\<rparr>"

definition quiet_store :: supabase where
  "quiet_store =
     \<lparr>sessions = [''s1'' \<mapsto> ended_session],
      session_events =
        [\<lparr>ev_session_id = ''s1'', event_type = ''session_start'', timestamp = 1000000,
          data = [(''user_id'', JStr ''user_s1'')], metadata = []\<rparr>,
         \<lparr>ev_session_id = ''s1'', event_type = ''session_end'', timestamp = 3500000,
          data = [], metadata = []\<rparr>],
      faults = []\<rparr>"

definition spoken_store :: supabase where
  "spoken_store =
     \<lparr>sessions = [''s1'' \<mapsto> ended_session],
      session_events =
        [\<lparr>ev_session_id = ''s1'', event_type = ''session_start'', timestamp = 1000000,
          data = [(''user_id'', JStr ''user_s1'')], metadata = []\<rparr>,
         \<lparr>ev_session_id = ''s1'', event_type = ''user_message'', timestamp = 2000000,
          data = [(''content'', JStr ''hi'')], metadata = []\<rparr>,
         \<lparr>ev_session_id = ''s1'', event_type = ''assistant_response'', timestamp = 3000000,
          data = [(''content'', JStr ''hello'')], metadata = []\<rparr>,
         \<lparr>ev_session_id = ''s1'', event_type = ''session_end'', timestamp = 3500000,
          data = [], metadata = []\<rparr>],
      faults = []\<rparr>"

definition empty_store :: supabase where
  "empty_store = \<lparr>sessions = Map.empty, session_events = [], faults = []\<rparr>"

text \<open>
  \<open>busy_store\<close> is \<open>spoken_store\<close> with a function call of its session and a message of
  another session.
\<close>

definition busy_store :: supabase where
  "busy_store =
     spoken_store\<lparr>session_events := session_events spoken_store @
        [\<lparr>ev_session_id = ''s2'', event_type = ''user_message'', timestamp = 2100000,
          data = [(''content'', JStr ''hey'')], metadata = []\<rparr>,
         \<lparr>ev_session_id = ''s1'', event_type = ''function_call'', timestamp = 2200000,
          data = [(''function_name'', JStr ''get_weather'')], metadata = []\<rparr>]\<rparr>"

definition active_session :: session where
  "active_session = \<lparr>session_id = ''s1'', user_id = ''user_s1'', start_time = 1000000,
                       end_time = None, duration_seconds = None, summary = None,
                       status = ''active''\<rparr>"

definition active_store :: supabase where
  "active_store = \<lparr>sessions = [''s1'' \<mapsto> active_session], session_events = [], faults = []\<rparr>"


section \<open>Humanized durations\<close>

text \<open>The digits \<open>str_nat\<close> writes are the decimal digits of its argument.\<close>

lemma digit_value: "d < 10 \<Longrightarrow> (of_char (''0123456789'' ! d) :: nat) - 48 = d"
proof -
  assume "d < 10"
  then have "d \<in> {0, 1, 2, 3, 4, 5, 6, 7, 8, 9}" by auto
  then show ?thesis by auto
qed

lemma decimal_value_str_nat: "decimal_value (str_nat n) = n"
proof (induction n rule: str_nat.induct)
  case (1 n)
  show ?case
  proof (cases "n < 10")
    case True
    then show ?thesis by (subst str_nat.simps) (simp add: digit_value)
  next
    case False
    with 1 have "decimal_value (str_nat (n div 10)) = n div 10" by simp
    with False show ?thesis by (subst str_nat.simps) (simp add: digit_value)
  qed
qed

text \<open>
  C8. For every number of seconds \<open>s \<ge> 0\<close> the formatter answers \<open>S seconds\<close> below 60,
  \<open>M minutes, S seconds\<close> below 3600 and \<open>H hours, M minutes\<close> from there on, the parts
  being quotients and remainders of integer division and written without a sign; 45,
  125 and 3725 give the three texts of the specification.
\<close>

theorem format_duration_cases:
  assumes "0 \<le> s"
  shows "format_duration s =
           (if s < 60 then str_nat (nat s) @ '' seconds''
            else if s < 3600 then
              str_nat (nat (s div 60)) @ '' minutes, '' @ str_nat (nat (s mod 60)) @ '' seconds''
            else
              str_nat (nat (s div 3600)) @ '' hours, ''
                @ str_nat (nat (s mod 3600 div 60)) @ '' minutes'')
         \<and> format_duration 45 = ''45 seconds''
         \<and> format_duration 125 = ''2 minutes, 5 seconds''
         \<and> format_duration 3725 = ''1 hours, 2 minutes''"
proof -
  have signs: "\<not> s < 0" "\<not> s div 60 < 0" "\<not> s mod 60 < 0" "\<not> s div 3600 < 0"
    "\<not> s mod 3600 div 60 < 0"
    using assms by (simp_all add: pos_imp_zdiv_neg_iff)
  have general: "format_duration s =
           (if s < 60 then str_nat (nat s) @ '' seconds''
            else if s < 3600 then
              str_nat (nat (s div 60)) @ '' minutes, '' @ str_nat (nat (s mod 60)) @ '' seconds''
            else
              str_nat (nat (s div 3600)) @ '' hours, ''
                @ str_nat (nat (s mod 3600 div 60)) @ '' minutes'')"
    using signs by (simp add: format_duration_def str_int_def Let_def)
  have e1: "format_duration 45 = ''45 seconds''" by code_simp
  have e2: "format_duration 125 = ''2 minutes, 5 seconds''" by code_simp
  have e3: "format_duration 3725 = ''1 hours, 2 minutes''" by code_simp
  from general e1 e2 e3 show ?thesis by blast
qed

theorem format_duration_cases_witness:
  "(0::int) \<le> 7384 \<and> format_duration 7384 = ''2 hours, 3 minutes''"
proof -
  have h: "(0::int) \<le> 7384" by simp
  have digits: "str_nat 2 = ''2''" "str_nat 3 = ''3''" by code_simp+
  from format_duration_cases [OF h] digits show ?thesis by simp
qed


section \<open>Statistics\<close>

lemma count_type_length: "count_type es t = length (filter (\<lambda>e. event_type e = t) es)"
  by (induction es) (auto simp: count_type_def)

lemma dict_get_set: "dict_get (dict_set d k v) k' dflt = (if k' = k then v else dict_get d k' dflt)"
  by (induction d k v rule: dict_set.induct) (auto simp: dict_get_def)

lemma dict_get_empty: "dict_get [] k dflt = dflt"
  by (simp add: dict_get_def)

lemma keys_dict_set: "fst ` set (dict_set d k v) = insert k (fst ` set d)"
  by (induction d k v rule: dict_set.induct) auto

lemma distinct_dict_set: "distinct (map fst d) \<Longrightarrow> distinct (map fst (dict_set d k v))"
  by (induction d k v rule: dict_set.induct) (auto simp: keys_dict_set)

lemma sum_dict_set:
  "sum_list (map snd (dict_set d k (dict_get d k 0 + n))) = sum_list (map snd d) + (n::nat)"
  by (induction d) (auto simp: dict_get_def)

lemma count_event_types_sum:
  "sum_list (map snd (count_event_types es d)) = sum_list (map snd d) + length es"
proof (induction es arbitrary: d)
  case Nil
  show ?case by simp
next
  case (Cons e es)
  have "sum_list (map snd (dict_set d (event_type e) (dict_get d (event_type e) 0 + 1)))
          = sum_list (map snd d) + 1"
    by (rule sum_dict_set)
  with Cons show ?case by simp
qed

lemma count_event_types_distinct:
  "distinct (map fst d) \<Longrightarrow> distinct (map fst (count_event_types es d))"
  by (induction es arbitrary: d) (simp_all add: distinct_dict_set)

lemma count_event_types_get:
  "dict_get (count_event_types es d) t 0
     = dict_get d t 0 + length (filter (\<lambda>e. event_type e = t) es)"
  by (induction es arbitrary: d) (simp_all add: dict_get_set)

lemma length_by_kind:
  "length es = length (filter (\<lambda>e. event_type e = ''user_message'') es)
     + length (filter (\<lambda>e. event_type e = ''assistant_response'') es)
     + length (filter (\<lambda>e. event_type e = ''function_call'') es)
     + length (filter (\<lambda>e. event_type e \<noteq> ''user_message''
                          \<and> event_type e \<noteq> ''assistant_response''
                          \<and> event_type e \<noteq> ''function_call'') es)"
  by (induction es) auto

lemma statistics_of_events:
  "get_session_statistics db sid =
     (let events = fst (get_session_events db sid None)
      in (\<lparr>total_events = length events,
           user_messages = count_type events ''user_message'',
           assistant_responses = count_type events ''assistant_response'',
           function_calls = count_type events ''function_call'',
           event_types = count_event_types events []\<rparr>,
          snd (get_session_events db sid None)))"
  by (simp add: get_session_statistics_def split: prod.splits)


section \<open>Calls of the store\<close>

lemma execute_sessions [simp]: "sessions (snd (execute db)) = sessions db"
  by (simp add: execute_def split: list.splits)

lemma execute_events [simp]: "session_events (snd (execute db)) = session_events db"
  by (simp add: execute_def split: list.splits)

lemma execute_update_sessions:
  "execute (d\<lparr>sessions := m\<rparr>) = (fst (execute d), (snd (execute d))\<lparr>sessions := m\<rparr>)"
  by (simp add: execute_def split: list.splits)

lemma calls_succeed_step:
  "calls_succeed (Suc n) db \<Longrightarrow> fst (execute db) = None \<and> calls_succeed n (snd (execute db))"
  by (auto simp: calls_succeed_def execute_def split: list.splits)

lemma calls_succeed_one: "calls_succeed (Suc 0) db = (fst (execute db) = None)"
  by (auto simp: calls_succeed_def execute_def split: list.splits)

lemma calls_succeed_two:
  "calls_succeed 2 db = (fst (execute db) = None \<and> fst (execute (snd (execute db))) = None)"
  by (auto simp: calls_succeed_def execute_def numeral_2_eq_2 split: list.splits)

lemma calls_succeed_mono: "m \<le> n \<Longrightarrow> calls_succeed n db \<Longrightarrow> calls_succeed m db"
  using set_take_subset_set_take [of m n "faults db"]
  by (auto simp: calls_succeed_def list_all_iff)

lemma select_session_ok:
  "fst (execute db) = None \<Longrightarrow>
   select_session db sid =
     (Inr (case sessions db sid of None \<Rightarrow> [] | Some r \<Rightarrow> [r]), snd (execute db))"
  using execute_sessions [of db]
  by (cases "execute db") (auto simp: select_session_def split: option.splits)

lemma select_session_store: "snd (select_session db sid) = snd (execute db)"
  by (cases "execute db") (auto simp: select_session_def split: option.splits)

lemma select_session_result:
  "fst (select_session db sid) =
     (case fst (execute db) of
        Some e \<Rightarrow> Inl e
      | None \<Rightarrow> Inr (case sessions db sid of None \<Rightarrow> [] | Some r \<Rightarrow> [r]))"
  using execute_sessions [of db]
  by (cases "execute db") (auto simp: select_session_def split: option.splits)

lemma update_session_ok:
  "fst (execute db) = None \<Longrightarrow>
   update_session db sid patch =
     (case sessions db sid of
        None \<Rightarrow> (Inr [], snd (execute db))
      | Some r \<Rightarrow>
          (Inr [patch r], (snd (execute db))\<lparr>sessions := (sessions db)(sid \<mapsto> patch r)\<rparr>))"
  using execute_sessions [of db]
  by (cases "execute db") (auto simp: update_session_def split: option.splits)

lemma update_session_sessions:
  "sessions (snd (update_session db sid patch)) =
     (case sessions db sid of
        None \<Rightarrow> sessions db
      | Some r \<Rightarrow>
          if fst (execute db) = None then (sessions db)(sid \<mapsto> patch r) else sessions db)"
  using execute_sessions [of db]
  by (cases "execute db") (auto simp: update_session_def split: option.splits)

lemma insert_session_sessions:
  "sessions (snd (insert_session db r)) =
     (if fst (execute db) = None \<and> sessions db (session_id r) = None
      then (sessions db)(session_id r \<mapsto> r) else sessions db)"
  using execute_sessions [of db]
  by (cases "execute db") (auto simp: insert_session_def split: option.splits)

lemma insert_event_ok:
  "fst (execute db) = None \<Longrightarrow>
   insert_event db e =
     (Inr [e], (snd (execute db))\<lparr>session_events := session_events db @ [e]\<rparr>)"
  using execute_events [of db]
  by (cases "execute db") (auto simp: insert_event_def split: option.splits)

lemma insert_event_fault:
  "faults db = Some x # fs \<Longrightarrow> insert_event db e = (Inl x, db\<lparr>faults := fs\<rparr>)"
  by (simp add: insert_event_def execute_def)

lemma insert_event_sessions: "sessions (snd (insert_event db e)) = sessions db"
  using execute_sessions [of db]
  by (cases "execute db") (auto simp: insert_event_def split: option.splits)


section \<open>Logging\<close>

lemma log_event_total: "\<exists>r db'. log_event db now sid ty d md = (Inr r, db')"
  by (simp add: log_event_def Let_def split: prod.splits sum.splits)

lemma log_event_ok:
  assumes "fst (execute db) = None"
  shows "log_event db now sid ty d md =
           (Inr (Row \<lparr>ev_session_id = sid, event_type = ty, timestamp = now, data = d,
                       metadata = (case md of None \<Rightarrow> [] | Some m \<Rightarrow> m)\<rparr>),
            (snd (execute db))\<lparr>session_events := session_events db @
               [\<lparr>ev_session_id = sid, event_type = ty, timestamp = now, data = d,
                 metadata = (case md of None \<Rightarrow> [] | Some m \<Rightarrow> m)\<rparr>]\<rparr>)"
  using assms by (simp add: log_event_def Let_def insert_event_ok)

lemma log_event_sessions: "sessions (snd (log_event db now sid ty d md)) = sessions db"
proof -
  have "snd (log_event db now sid ty d md) =
          snd (insert_event db
                 \<lparr>ev_session_id = sid, event_type = ty, timestamp = now, data = d,
                  metadata = (case md of None \<Rightarrow> [] | Some m \<Rightarrow> m)\<rparr>)"
    by (simp add: log_event_def Let_def split: prod.splits sum.splits)
  then show ?thesis by (simp add: insert_event_sessions)
qed

text \<open>
  C1. Whatever the session, the event type, the payload and the metadata, and whatever
  the store does, \<open>log_event\<close> returns and does not raise. When the insert fails, it
  returns the empty dictionary and leaves both tables as they were; when the insert goes
  through, it returns the new event, which is then the last of the log.
\<close>

theorem log_event_never_raises:
  "(\<exists>r db'. log_event db now sid ty d md = (Inr r, db'))
   \<and> (\<forall>x fs. faults db = Some x # fs \<longrightarrow>
         log_event db now sid ty d md = (Inr Empty_dict, db\<lparr>faults := fs\<rparr>))
   \<and> (fst (execute db) = None \<longrightarrow>
         log_event db now sid ty d md =
           (Inr (Row \<lparr>ev_session_id = sid, event_type = ty, timestamp = now, data = d,
                       metadata = (case md of None \<Rightarrow> [] | Some m \<Rightarrow> m)\<rparr>),
            (snd (execute db))\<lparr>session_events := session_events db @
               [\<lparr>ev_session_id = sid, event_type = ty, timestamp = now, data = d,
                 metadata = (case md of None \<Rightarrow> [] | Some m \<Rightarrow> m)\<rparr>]\<rparr>))"
proof (intro conjI allI impI)
  show "\<exists>r db'. log_event db now sid ty d md = (Inr r, db')"
    by (rule log_event_total)
next
  fix x fs
  assume "faults db = Some x # fs"
  then show "log_event db now sid ty d md = (Inr Empty_dict, db\<lparr>faults := fs\<rparr>)"
    by (simp add: log_event_def Let_def insert_event_fault)
next
  assume "fst (execute db) = None"
  then show "log_event db now sid ty d md =
           (Inr (Row \<lparr>ev_session_id = sid, event_type = ty, timestamp = now, data = d,
                       metadata = (case md of None \<Rightarrow> [] | Some m \<Rightarrow> m)\<rparr>),
            (snd (execute db))\<lparr>session_events := session_events db @
               [\<lparr>ev_session_id = sid, event_type = ty, timestamp = now, data = d,
                 metadata = (case md of None \<Rightarrow> [] | Some m \<Rightarrow> m)\<rparr>]\<rparr>)"
    by (rule log_event_ok)
qed

theorem log_event_never_raises_witness:
  "faults (quiet_store\<lparr>faults := [Some (APIError ''connection reset'')]\<rparr>)
     = Some (APIError ''connection reset'') # []
   \<and> log_event (quiet_store\<lparr>faults := [Some (APIError ''connection reset'')]\<rparr>)
        4000000 ''s1'' ''user_message'' [(''content'', JStr ''hi'')] None
      = (Inr Empty_dict, quiet_store)"
proof -
  let ?db = "quiet_store\<lparr>faults := [Some (APIError ''connection reset'')]\<rparr>"
  have h: "faults ?db = Some (APIError ''connection reset'') # []" by simp
  have restored: "?db\<lparr>faults := []\<rparr> = quiet_store" by (simp add: quiet_store_def)
  from log_event_never_raises [of ?db 4000000 "''s1''" "''user_message''"
         "[(''content'', JStr ''hi'')]" None] h
  have "log_event ?db 4000000 ''s1'' ''user_message'' [(''content'', JStr ''hi'')] None
          = (Inr Empty_dict, ?db\<lparr>faults := []\<rparr>)"
    by blast
  with h restored show ?thesis by simp
qed


section \<open>Ending a session\<close>

text \<open>Rounding to the nearest integer moves by at most a half and never below an integer.\<close>

lemma round_half_even_ge: "of_int K \<le> q \<Longrightarrow> K \<le> round_half_even q"
proof -
  assume "of_int K \<le> q"
  then have "K \<le> \<lfloor>q\<rfloor>" by (simp add: le_floor_iff)
  then show ?thesis by (simp add: round_half_even_def Let_def)
qed

lemma round_half_even_le: "of_int (round_half_even q) \<le> q + 1 / 2"
proof (cases "q - of_int \<lfloor>q\<rfloor> < 1 / 2")
  case True
  then have "round_half_even q = \<lfloor>q\<rfloor>" by (simp add: round_half_even_def Let_def)
  with of_int_floor_le [of q] show ?thesis by linarith
next
  case False
  then have "of_int \<lfloor>q\<rfloor> + 1 \<le> q + 1 / 2" by simp
  moreover have "round_half_even q \<le> \<lfloor>q\<rfloor> + 1"
    by (simp add: round_half_even_def Let_def)
  then have "(of_int (round_half_even q) :: rat) \<le> of_int (\<lfloor>q\<rfloor> + 1)"
    by (simp only: of_int_le_iff)
  ultimately show ?thesis by simp
qed

text \<open>\<open>binary_exponent\<close> is the exponent of the leading bit.\<close>

lemma binary_exponent_le:
  assumes "0 < x"
  shows "2 powi (binary_exponent x) \<le> x"
proof -
  obtain a b where ab: "quotient_of x = (a, b)" by (cases "quotient_of x")
  then have b: "0 < b" and x: "x = of_int a / of_int b"
    using quotient_of_denom_pos quotient_of_div by auto
  from assms x b have a: "0 < a" by (simp add: zero_less_divide_iff)
  let ?e0 = "bitlen a - bitlen b"
  show ?thesis
  proof (cases "2 powi ?e0 \<le> x")
    case True
    then show ?thesis by (simp add: binary_exponent_def ab Let_def)
  next
    case False
    from bitlen_bounds [OF a] have la: "(2::int) ^ nat (bitlen a - 1) \<le> a" by simp
    from bitlen_bounds [OF b] have ub: "b < (2::int) ^ nat (bitlen b)" by simp
    have ba: "1 \<le> bitlen a" using a by (simp add: bitlen_alt_def)
    have bb: "0 \<le> bitlen b" by (rule bitlen_nonneg)
    have "(2::rat) powi (bitlen a - 1) \<le> of_int a"
    proof -
      have "(2::rat) powi (bitlen a - 1) = 2 ^ nat (bitlen a - 1)"
        using ba by (simp add: power_int_nonneg_exp)
      also have "\<dots> = of_int (2 ^ nat (bitlen a - 1))" by simp
      also have "\<dots> \<le> of_int a" using la by (simp only: of_int_le_iff)
      finally show ?thesis .
    qed
    moreover have "of_int b \<le> (2::rat) powi (bitlen b)"
    proof -
      have "(of_int b :: rat) \<le> of_int (2 ^ nat (bitlen b))"
        using ub by (simp only: of_int_le_iff)
      also have "\<dots> = 2 powi (bitlen b)" using bb by (simp add: power_int_nonneg_exp)
      finally show ?thesis .
    qed
    ultimately have "(2::rat) powi (bitlen a - 1) / 2 powi (bitlen b) \<le> of_int a / of_int b"
      using a b by (intro frac_le) simp_all
    moreover have "(2::rat) powi (bitlen a - 1) / 2 powi (bitlen b) = 2 powi (?e0 - 1)"
    proof -
      have "(2::rat) powi ((bitlen a - 1) - bitlen b) = 2 powi (bitlen a - 1) / 2 powi (bitlen b)"
        by (rule power_int_diff) simp
      moreover have "(bitlen a - 1) - bitlen b = ?e0 - 1" by simp
      ultimately show ?thesis by simp
    qed
    ultimately have "2 powi (?e0 - 1) \<le> x" using x by simp
    with False show ?thesis by (simp add: binary_exponent_def ab Let_def)
  qed
qed

lemma binary_exponent_less:
  assumes "0 < x"
  shows "x < 2 powi (binary_exponent x + 1)"
proof -
  obtain a b where ab: "quotient_of x = (a, b)" by (cases "quotient_of x")
  then have b: "0 < b" and x: "x = of_int a / of_int b"
    using quotient_of_denom_pos quotient_of_div by auto
  from assms x b have a: "0 < a" by (simp add: zero_less_divide_iff)
  let ?e0 = "bitlen a - bitlen b"
  show ?thesis
  proof (cases "2 powi ?e0 \<le> x")
    case False
    then show ?thesis by (simp add: binary_exponent_def ab Let_def)
  next
    case True
    from bitlen_bounds [OF a] have ua: "a < (2::int) ^ nat (bitlen a)" by simp
    from bitlen_bounds [OF b] have lb: "(2::int) ^ nat (bitlen b - 1) \<le> b" by simp
    have ba: "0 \<le> bitlen a" by (rule bitlen_nonneg)
    have bb: "1 \<le> bitlen b" using b by (simp add: bitlen_alt_def)
    have "of_int a < (2::rat) powi (bitlen a)"
    proof -
      have "(of_int a :: rat) < of_int (2 ^ nat (bitlen a))"
        using ua by (simp only: of_int_less_iff)
      also have "\<dots> = 2 powi (bitlen a)" using ba by (simp add: power_int_nonneg_exp)
      finally show ?thesis .
    qed
    moreover have "(2::rat) powi (bitlen b - 1) \<le> of_int b"
    proof -
      have "(2::rat) powi (bitlen b - 1) = of_int (2 ^ nat (bitlen b - 1))"
        using bb by (simp add: power_int_nonneg_exp)
      also have "\<dots> \<le> of_int b" using lb by (simp only: of_int_le_iff)
      finally show ?thesis .
    qed
    ultimately have "of_int a / of_int b < (2::rat) powi (bitlen a) / 2 powi (bitlen b - 1)"
      using a by (intro frac_less) simp_all
    moreover have "(2::rat) powi (bitlen a) / 2 powi (bitlen b - 1) = 2 powi (?e0 + 1)"
    proof -
      have "(2::rat) powi (bitlen a - (bitlen b - 1)) = 2 powi (bitlen a) / 2 powi (bitlen b - 1)"
        by (rule power_int_diff) simp
      moreover have "bitlen a - (bitlen b - 1) = ?e0 + 1" by simp
      ultimately show ?thesis by simp
    qed
    ultimately have "x < 2 powi (?e0 + 1)" using x by simp
    with True show ?thesis by (simp add: binary_exponent_def ab Let_def)
  qed
qed

lemma tenth_as_double: "round_double (1 / 10) = 3602879701896397 / 36028797018963968"
  by code_simp

lemma py_int_minus: "py_int (- x) = - py_int x"
  by (auto simp: py_int_def ceiling_minus floor_minus)

lemma round_double_minus: "round_double (- x) = - round_double x"
  by (simp add: round_double_def Let_def)

lemma total_seconds_minus: "total_seconds (- d) = - total_seconds d"
  by (simp add: total_seconds_def round_double_minus)

text \<open>
  Below \<open>2^33\<close> seconds the doubles lie less than a microsecond apart, so the rounding of
  the quotient never reaches the next whole second.
\<close>

lemma whole_seconds_kept:
  assumes "0 \<le> d" and "d < 2 ^ 33 * 1000000"
  shows "py_int (total_seconds d) = d div 1000000"
proof (cases "d = 0")
  case True
  then show ?thesis by (simp add: total_seconds_def round_double_def py_int_def)
next
  case False
  with assms(1) have dpos: "0 < d" by simp
  define x :: rat where "x = of_int d / 1000000"
  define k where "k = d div 1000000"
  define e where "e = binary_exponent x"
  define j where "j = nat (52 - e)"
  define n where "n = round_half_even (x * 2 ^ j)"
  have xpos: "0 < x" using dpos by (simp add: x_def)
  have xlt: "x < 2 powi 33"
  proof -
    have "(of_int d :: rat) < of_int (2 ^ 33 * 1000000)"
      using assms(2) by (simp only: of_int_less_iff)
    then show ?thesis by (simp add: x_def)
  qed
  have "2 powi e \<le> x" unfolding e_def using xpos by (rule binary_exponent_le)
  from this xlt have "(2::rat) powi e < 2 powi 33" by (rule le_less_trans)
  then have e: "e < 33" by (rule power_int_le_imp_less_exp [rotated]) simp_all
  then have j: "20 \<le> j" and ej: "e - 52 = - int j" by (simp_all add: j_def)
  have ulp: "(2::rat) powi (e - 52) = 1 / 2 ^ j"
    unfolding ej by (simp add: power_int_minus_divide)
  have rd: "round_double x = of_int n / 2 ^ j"
    using xpos by (simp add: round_double_def Let_def e_def [symmetric] ulp n_def)
  have big: "(1000000::rat) < 2 ^ j"
  proof -
    have "(1000000::rat) < 2 ^ 20" by simp
    also have "\<dots> \<le> 2 ^ j" using j by (intro power_increasing) simp_all
    finally show ?thesis .
  qed
  have kd: "k * 1000000 \<le> d" and dk: "d + 1 \<le> (k + 1) * 1000000"
    unfolding k_def by (simp_all add: algebra_simps)
  have low: "k * 2 ^ j \<le> n"
  proof -
    have "(of_int (k * 1000000) :: rat) \<le> of_int d" using kd by (simp only: of_int_le_iff)
    then have "of_int k \<le> x" by (simp add: x_def pos_le_divide_eq)
    then have "of_int k * 2 ^ j \<le> x * 2 ^ j" by (simp add: mult_right_mono)
    then have "of_int (k * 2 ^ j) \<le> x * 2 ^ j" by simp
    then show ?thesis unfolding n_def by (rule round_half_even_ge)
  qed
  have high: "n < (k + 1) * 2 ^ j"
  proof -
    have "(of_int (d + 1) :: rat) \<le> of_int ((k + 1) * 1000000)"
      using dk by (simp only: of_int_le_iff)
    then have "x + 1 / 1000000 \<le> of_int (k + 1)"
      by (simp add: x_def field_simps)
    then have "(x + 1 / 1000000) * 2 ^ j \<le> of_int (k + 1) * 2 ^ j"
      by (simp add: mult_right_mono)
    moreover have "1 < (1 / 1000000) * (2::rat) ^ j" using big by simp
    ultimately have "x * 2 ^ j + 1 < of_int (k + 1) * 2 ^ j"
      by (simp add: algebra_simps)
    with round_half_even_le [of "x * 2 ^ j"]
    have "(of_int n :: rat) < of_int (k + 1) * 2 ^ j" unfolding n_def by linarith
    then have "(of_int n :: rat) < of_int ((k + 1) * 2 ^ j)" by simp
    then show ?thesis by (simp only: of_int_less_iff)
  qed
  have kpos: "0 \<le> k" using assms(1) by (simp add: k_def pos_imp_zdiv_nonneg_iff)
  have npos: "0 \<le> n"
  proof -
    have "(0::int) \<le> k * 2 ^ j" using kpos by simp
    with low show ?thesis by linarith
  qed
  have "n div 2 ^ j = k"
    by (rule int_div_pos_eq [of n "2 ^ j" k "n - k * 2 ^ j"])
       (use low high in \<open>simp_all add: algebra_simps\<close>)
  moreover have "\<lfloor>(of_int n :: rat) / 2 ^ j\<rfloor> = n div 2 ^ j"
    using floor_divide_of_int_eq [of n "2 ^ j", where ?'a = rat] by simp
  moreover have "0 \<le> (of_int n :: rat) / 2 ^ j" using npos by simp
  ultimately show ?thesis
    by (simp add: total_seconds_def x_def [symmetric] rd py_int_def k_def)
qed

lemma fraction_discarded:
  assumes "\<bar>d\<bar> < 2 ^ 33 * 1000000"
  shows "py_int (total_seconds d)
           = (if 0 \<le> d then \<lfloor>exact_seconds d\<rfloor> else \<lceil>exact_seconds d\<rceil>)"
proof (cases "0 \<le> d")
  case True
  with assms have "py_int (total_seconds d) = d div 1000000"
    by (intro whole_seconds_kept) simp_all
  moreover have "\<lfloor>exact_seconds d\<rfloor> = d div 1000000"
    unfolding exact_seconds_def
    using floor_divide_of_int_eq [of d 1000000, where ?'a = rat] by simp
  ultimately show ?thesis using True by simp
next
  case False
  with assms have "py_int (total_seconds (- d)) = (- d) div 1000000"
    by (intro whole_seconds_kept) simp_all
  then have "py_int (total_seconds d) = - ((- d) div 1000000)"
    by (simp add: total_seconds_minus py_int_minus)
  moreover have "\<lfloor>exact_seconds (- d)\<rfloor> = (- d) div 1000000"
    unfolding exact_seconds_def
    using floor_divide_of_int_eq [of "- d" 1000000, where ?'a = rat] by simp
  moreover have "\<lceil>exact_seconds d\<rceil> = - \<lfloor>exact_seconds (- d)\<rfloor>"
    by (simp add: exact_seconds_def ceiling_def)
  ultimately show ?thesis using False by simp
qed

lemma end_session_ok:
  assumes "sessions db sid = Some s" and "calls_succeed 2 db"
  shows "end_session db now sid =
           (Inr (Row (s\<lparr>end_time := Some now,
                         duration_seconds := Some (py_int (total_seconds (now - start_time s))),
                         status := ''completed''\<rparr>)),
            (snd (execute (snd (execute db))))
              \<lparr>sessions := (sessions db)(sid \<mapsto> s\<lparr>end_time := Some now,
                         duration_seconds := Some (py_int (total_seconds (now - start_time s))),
                         status := ''completed''\<rparr>)\<rparr>)"
proof -
  from assms(2) have c1: "fst (execute db) = None"
    and c2: "fst (execute (snd (execute db))) = None"
    by (simp_all add: calls_succeed_two)
  show ?thesis
    using assms(1) c1 c2
    by (simp add: end_session_def select_session_ok update_session_ok Let_def)
qed

lemma end_session_store:
  "snd (end_session db now sid) =
     (case fst (select_session db sid) of
        Inr (r # _) \<Rightarrow>
          snd (update_session (snd (execute db)) sid
                 (\<lambda>s. s\<lparr>end_time := Some now,
                         duration_seconds := Some (py_int (total_seconds (now - start_time r))),
                         status := ''completed''\<rparr>))
      | _ \<Rightarrow> snd (execute db))"
  using select_session_store [of db sid]
  by (cases "select_session db sid")
     (simp add: end_session_def Let_def split: sum.splits list.splits prod.splits)

lemma end_session_sessions:
  "sessions (snd (end_session db now sid)) =
     (case sessions db sid of
        None \<Rightarrow> sessions db
      | Some r \<Rightarrow>
          if calls_succeed 2 db
          then (sessions db)(sid \<mapsto> r\<lparr>end_time := Some now,
                  duration_seconds := Some (py_int (total_seconds (now - start_time r))),
                  status := ''completed''\<rparr>)
          else sessions db)"
  unfolding end_session_store select_session_result calls_succeed_two
  by (auto simp: update_session_sessions split: option.splits)

text \<open>
  C3, as the code has it. For a session whose stored \<open>start_time\<close> is \<open>T0\<close>, \<open>end_session\<close>
  at \<open>T1\<close> (its two store calls going through) returns and stores the session with
  \<open>end_time = T1\<close>, \<open>status = completed\<close> and \<open>duration_seconds\<close> the \<open>int\<close> of the double
  nearest to \<open>T1 - T0\<close> in seconds. Whenever \<open>T0\<close> and \<open>T1\<close> are less than \<open>2^33\<close> seconds
  apart, that is the whole seconds of \<open>T1 - T0\<close> with the fraction discarded: the floor of
  \<open>T1 - T0\<close> when \<open>T0 \<le> T1\<close>, its ceiling otherwise.
\<close>

theorem end_session_duration_truncates:
  assumes "sessions db sid = Some s" and "calls_succeed 2 db"
  shows "\<exists>r db'. end_session db now sid = (Inr (Row r), db')
           \<and> sessions db' sid = Some r
           \<and> r = s\<lparr>end_time := Some now,
                    duration_seconds := Some (py_int (total_seconds (now - start_time s))),
                    status := ''completed''\<rparr>
           \<and> (\<bar>now - start_time s\<bar> < 2 ^ 33 * 1000000 \<longrightarrow>
                (if start_time s \<le> now
                 then duration_seconds r = Some \<lfloor>exact_seconds (now - start_time s)\<rfloor>
                 else duration_seconds r = Some \<lceil>exact_seconds (now - start_time s)\<rceil>))"
proof -
  have "\<bar>now - start_time s\<bar> < 2 ^ 33 * 1000000 \<Longrightarrow>
          py_int (total_seconds (now - start_time s))
            = (if start_time s \<le> now then \<lfloor>exact_seconds (now - start_time s)\<rfloor>
               else \<lceil>exact_seconds (now - start_time s)\<rceil>)"
    using fraction_discarded [of "now - start_time s"] by simp
  with end_session_ok [OF assms, of now] show ?thesis by simp
qed

text \<open>
  C3 as stated fails in two places. When the stored start lies after the clock reading
  by a fraction of a second, the fraction is dropped toward zero: half a second back
  gives 0, and the floor is -1. And from \<open>2^34\<close> seconds on the double nearest to a
  difference that ends in .999999 is the next whole number: 19781236799.999999 seconds
  give 19781236800, and the floor is 19781236799.
\<close>

theorem end_session_duration_not_floor:
  "fst (end_session (active_store\<lparr>sessions := [''s1'' \<mapsto> active_session\<lparr>start_time := 1500000\<rparr>]\<rparr>)
          1000000 ''s1'')
     = Inr (Row \<lparr>session_id = ''s1'', user_id = ''user_s1'', start_time = 1500000,
                 end_time = Some 1000000, duration_seconds = Some 0, summary = None,
                 status = ''completed''\<rparr>)
   \<and> \<lfloor>exact_seconds (1000000 - 1500000)\<rfloor> = - 1
   \<and> fst (end_session (active_store\<lparr>sessions := [''s1'' \<mapsto> active_session\<lparr>start_time := 1\<rparr>]\<rparr>)
          19781236800000000 ''s1'')
     = Inr (Row \<lparr>session_id = ''s1'', user_id = ''user_s1'', start_time = 1,
                 end_time = Some 19781236800000000, duration_seconds = Some 19781236800,
                 summary = None, status = ''completed''\<rparr>)
   \<and> \<lfloor>exact_seconds (19781236800000000 - 1)\<rfloor> = 19781236799"
  by code_simp

theorem end_session_duration_truncates_witness:
  "sessions active_store ''s1'' = Some active_session
   \<and> calls_succeed 2 active_store
   \<and> \<bar>3500000 - start_time active_session\<bar> < 2 ^ 33 * 1000000
   \<and> fst (end_session active_store 3500000 ''s1'')
       = Inr (Row \<lparr>session_id = ''s1'', user_id = ''user_s1'', start_time = 1000000,
                   end_time = Some 3500000, duration_seconds = Some 2, summary = None,
                   status = ''completed''\<rparr>)"
proof -
  have h1: "sessions active_store ''s1'' = Some active_session"
    by (simp add: active_store_def)
  have h2: "calls_succeed 2 active_store"
    by (simp add: calls_succeed_def active_store_def)
  have s0: "start_time active_session = 1000000" by (simp add: active_session_def)
  have h3: "\<bar>3500000 - start_time active_session\<bar> < 2 ^ 33 * 1000000" by (simp add: s0)
  have fl: "\<lfloor>exact_seconds 2500000\<rfloor> = 2" by code_simp
  from end_session_duration_truncates [OF h1 h2, of 3500000] h3
  obtain r db' where run: "end_session active_store 3500000 ''s1'' = (Inr (Row r), db')"
    and r: "r = active_session\<lparr>end_time := Some 3500000,
                 duration_seconds := Some (py_int (total_seconds (3500000 - start_time active_session))),
                 status := ''completed''\<rparr>"
    and d: "duration_seconds r = Some \<lfloor>exact_seconds (3500000 - start_time active_session)\<rfloor>"
    by (auto simp: s0)
  from d fl have "duration_seconds r = Some 2" by (simp add: s0)
  with r have "r = \<lparr>session_id = ''s1'', user_id = ''user_s1'', start_time = 1000000,
                   end_time = Some 3500000, duration_seconds = Some 2, summary = None,
                   status = ''completed''\<rparr>"
    by (simp add: active_session_def)
  with run h1 h2 h3 show ?thesis by simp
qed


section \<open>A session that does not exist\<close>

text \<open>
  C10. For a session identifier with no session record, and the store call going
  through, \<open>update_session_summary\<close> does not raise: it returns the empty dictionary and
  leaves both tables as they were. \<open>end_session\<close> on the same store raises
  \<open>ValueError("Session ... not found")\<close>.
\<close>

theorem update_summary_absent_session:
  assumes "sessions db sid = None" and "calls_succeed 1 db"
  shows "update_session_summary db sid smry = (Inr Empty_dict, snd (execute db))
         \<and> sessions (snd (execute db)) = sessions db
         \<and> session_events (snd (execute db)) = session_events db
         \<and> end_session db now sid
             = (Inl (ValueError (''Session '' @ sid @ '' not found'')), snd (execute db))"
proof -
  from assms(2) have "fst (execute db) = None" by (simp add: calls_succeed_one)
  with assms(1) show ?thesis
    by (simp add: update_session_summary_def update_session_ok end_session_def
          select_session_ok)
qed

theorem update_summary_absent_session_witness:
  "sessions quiet_store ''s9'' = None
   \<and> calls_succeed 1 quiet_store
   \<and> update_session_summary quiet_store ''s9'' ''A short talk.'' = (Inr Empty_dict, quiet_store)
   \<and> end_session quiet_store 4000000 ''s9''
       = (Inl (ValueError ''Session s9 not found''), quiet_store)"
proof -
  have h1: "sessions quiet_store ''s9'' = None" by (simp add: quiet_store_def)
  have h2: "calls_succeed 1 quiet_store" by (simp add: calls_succeed_def quiet_store_def)
  have same: "snd (execute quiet_store) = quiet_store"
    by (simp add: execute_def quiet_store_def)
  from update_summary_absent_session [OF h1 h2, of "''A short talk.''" 4000000] h1 h2
  show ?thesis by (simp add: same)
qed


section \<open>Reading the event log\<close>

lemma get_session_events_store: "snd (get_session_events db sid ts) = snd (execute db)"
  by (cases "execute db")
     (auto simp: get_session_events_def select_events_def Let_def split: option.splits)

lemma get_session_events_all:
  "fst (get_session_events db sid None) =
     (case fst (execute db) of
        Some e \<Rightarrow> []
      | None \<Rightarrow> sort_key timestamp (filter (\<lambda>e. ev_session_id e = sid) (session_events db)))"
  using execute_events [of db]
  by (cases "execute db")
     (auto simp: get_session_events_def select_events_def Let_def split: option.splits)

lemma get_session_events_same:
  assumes "fst (execute db) = fst (execute db')" and "session_events db = session_events db'"
  shows "fst (get_session_events db sid ts) = fst (get_session_events db' sid ts)"
  using assms execute_events [of db] execute_events [of db']
  by (cases "execute db"; cases "execute db'")
     (auto simp: get_session_events_def select_events_def Let_def split: option.splits)

lemma get_session_eq:
  "get_session db sid =
     (case fst (execute db) of Some e \<Rightarrow> None | None \<Rightarrow> sessions db sid, snd (execute db))"
  using execute_sessions [of db]
  by (cases "execute db") (auto simp: get_session_def select_session_def split: option.splits)

lemma get_session_statistics_store: "snd (get_session_statistics db sid) = snd (execute db)"
  using get_session_events_store [of db sid None]
  by (simp add: get_session_statistics_def case_prod_beta)

lemma get_session_statistics_same:
  assumes "fst (execute db) = fst (execute db')" and "session_events db = session_events db'"
  shows "fst (get_session_statistics db sid) = fst (get_session_statistics db' sid)"
  using get_session_events_same [OF assms]
  by (simp add: get_session_statistics_def case_prod_beta)


section \<open>Conversation reconstruction\<close>




lemma get_conversation_history_store: "snd (get_conversation_history db sid) = snd (execute db)"
  using get_session_events_store [of db sid "Some [''user_message'', ''assistant_response'']"]
  by (simp add: get_conversation_history_def case_prod_beta)

lemma get_conversation_history_same:
  assumes "fst (execute db) = fst (execute db')" and "session_events db = session_events db'"
  shows "fst (get_conversation_history db sid) = fst (get_conversation_history db' sid)"
  using get_session_events_same [OF assms]
  by (simp add: get_conversation_history_def case_prod_beta)







section \<open>The status of a session over time\<close>

lemma create_session_sessions:
  "sessions (snd (create_session db now sid uid)) =
     (if fst (execute db) = None \<and> sessions db sid = None
      then (sessions db)(sid \<mapsto> \<lparr>session_id = sid, user_id = uid, start_time = now,
              end_time = None, duration_seconds = None, summary = None, status = ''active''\<rparr>)
      else sessions db)"
proof -
  have "snd (create_session db now sid uid) =
          snd (insert_session db \<lparr>session_id = sid, user_id = uid, start_time = now,
              end_time = None, duration_seconds = None, summary = None, status = ''active''\<rparr>)"
    by (simp add: create_session_def Let_def split: prod.splits sum.splits)
  then show ?thesis by (simp add: insert_session_sessions)
qed

lemma update_session_summary_sessions:
  "sessions (snd (update_session_summary db sid smry)) =
     (case sessions db sid of
        None \<Rightarrow> sessions db
      | Some r \<Rightarrow> if fst (execute db) = None
                  then (sessions db)(sid \<mapsto> r\<lparr>summary := Some smry, status := ''summarized''\<rparr>)
                  else sessions db)"
proof -
  have "snd (update_session_summary db sid smry) =
          snd (update_session db sid (\<lambda>s. s\<lparr>summary := Some smry, status := ''summarized''\<rparr>))"
    by (simp add: update_session_summary_def split: prod.splits sum.splits)
  then show ?thesis by (simp add: update_session_sessions)
qed

lemma status_of_absent: "(status_of db sid = []) = (sessions db sid = None)"
  by (simp add: status_of_def split: option.splits)

lemma status_of_short: "length (status_of db sid) \<le> 1"
  by (simp add: status_of_def split: option.splits)

lemma status_of_create:
  "status_of (apply_op db sid (CreateSession uid now)) sid =
     (if fst (execute db) = None \<and> status_of db sid = [] then [''active'']
      else status_of db sid)"
  by (simp add: status_of_absent) (simp add: status_of_def create_session_sessions)

lemma status_of_end:
  "status_of (apply_op db sid (EndSession now)) sid =
     (if status_of db sid \<noteq> [] \<and> calls_succeed 2 db then [''completed'']
      else status_of db sid)"
  by (simp add: status_of_absent)
     (auto simp: status_of_def end_session_sessions split: option.splits)

lemma status_of_summary:
  "status_of (apply_op db sid (UpdateSummary smry)) sid =
     (if status_of db sid \<noteq> [] \<and> fst (execute db) = None then [''summarized'']
      else status_of db sid)"
  by (simp add: status_of_absent)
     (auto simp: status_of_def update_session_summary_sessions split: option.splits)

lemma rank_values:
  "status_rank ''active'' = 0" "status_rank ''completed'' = 1" "status_rank ''summarized'' = 2"
  by (simp_all add: status_rank_def)

lemma lifecycle_single:
  "lifecycle [st] = (st = ''active'' \<or> st = ''completed'' \<or> st = ''summarized'')"
  by (simp add: lifecycle_def)

lemma step_lifecycle:
  "lifecycle (status_of db sid) \<Longrightarrow> lifecycle (status_of (apply_op db sid x) sid)"
proof (cases x)
  case (CreateSession uid now)
  assume "lifecycle (status_of db sid)"
  then show ?thesis unfolding CreateSession status_of_create by (simp add: lifecycle_def)
next
  case (EndSession now)
  assume "lifecycle (status_of db sid)"
  then show ?thesis unfolding EndSession status_of_end by (simp add: lifecycle_def)
next
  case (UpdateSummary smry)
  assume "lifecycle (status_of db sid)"
  then show ?thesis unfolding UpdateSummary status_of_summary by (simp add: lifecycle_def)
qed

lemma step_rank:
  assumes "lifecycle (status_of db sid)"
    and "status_of db sid = [''summarized''] \<longrightarrow> \<not> is_end x"
  shows "\<forall>a \<in> set (status_of db sid). \<forall>b \<in> set (status_of (apply_op db sid x) sid).
           status_rank a \<le> status_rank b"
proof (cases x)
  case (CreateSession uid now)
  from assms(1) show ?thesis
    unfolding CreateSession status_of_create lifecycle_def
    by (elim disjE) (simp_all add: rank_values)
next
  case (EndSession now)
  with assms(2) have "status_of db sid \<noteq> [''summarized'']" by simp
  with assms(1) show ?thesis
    unfolding EndSession status_of_end lifecycle_def
    by (elim disjE) (simp_all add: rank_values)
next
  case (UpdateSummary smry)
  from assms(1) show ?thesis
    unfolding UpdateSummary status_of_summary lifecycle_def
    by (elim disjE) (simp_all add: rank_values)
qed

lemma step_stays:
  "status_of db sid \<noteq> [] \<Longrightarrow> status_of (apply_op db sid x) sid \<noteq> []"
proof (cases x)
  case (CreateSession uid now)
  assume "status_of db sid \<noteq> []"
  then show ?thesis unfolding CreateSession status_of_create by simp
next
  case (EndSession now)
  assume "status_of db sid \<noteq> []"
  then show ?thesis unfolding EndSession status_of_end by simp
next
  case (UpdateSummary smry)
  assume "status_of db sid \<noteq> []"
  then show ?thesis unfolding UpdateSummary status_of_summary by simp
qed

lemma step_guard:
  assumes "status_of db sid = [''summarized''] \<longrightarrow> \<not> list_ex is_end (x # xs)"
    and "end_before_summary (x # xs)"
  shows "status_of (apply_op db sid x) sid = [''summarized''] \<longrightarrow> \<not> list_ex is_end xs"
proof (cases x)
  case (CreateSession uid now)
  from assms(1) show ?thesis
    unfolding CreateSession status_of_create by (simp split: if_splits)
next
  case (EndSession now)
  from assms(1) show ?thesis
    unfolding EndSession status_of_end by (simp split: if_splits)
next
  case (UpdateSummary smry)
  from assms(2) show ?thesis
    unfolding UpdateSummary by simp
qed

lemma observe_monotone:
  assumes "lifecycle (status_of db sid)"
    and "status_of db sid = [''summarized''] \<longrightarrow> \<not> list_ex is_end ops"
    and "end_before_summary ops"
  shows "sorted (map status_rank (observe db sid ops))
         \<and> (\<forall>y \<in> set (observe db sid ops). \<forall>a \<in> set (status_of db sid).
               status_rank a \<le> status_rank y)
         \<and> list_all (\<lambda>st. lifecycle [st]) (observe db sid ops)"
  using assms
proof (induction ops arbitrary: db)
  case Nil
  have "length (status_of db sid) \<le> 1" by (rule status_of_short)
  then have "status_of db sid = [] \<or> (\<exists>a. status_of db sid = [a])"
    by (cases "status_of db sid") auto
  with Nil.prems(1) show ?case by (auto simp: lifecycle_def)
next
  case (Cons x xs)
  let ?db' = "apply_op db sid x"
  have lifecycle': "lifecycle (status_of ?db' sid)"
    using Cons.prems(1) by (rule step_lifecycle)
  have guard': "status_of ?db' sid = [''summarized''] \<longrightarrow> \<not> list_ex is_end xs"
    using Cons.prems(2,3) by (rule step_guard)
  have rest: "end_before_summary xs" using Cons.prems(3) by simp
  note IH = Cons.IH [OF lifecycle' guard' rest]
  have "status_of db sid = [''summarized''] \<longrightarrow> \<not> is_end x"
    using Cons.prems(2) by simp
  with Cons.prems(1)
  have step: "\<forall>a \<in> set (status_of db sid). \<forall>b \<in> set (status_of ?db' sid).
                status_rank a \<le> status_rank b"
    by (rule step_rank)
  have bound: "\<forall>y \<in> set (observe ?db' sid xs). \<forall>a \<in> set (status_of db sid).
                 status_rank a \<le> status_rank y"
  proof (intro ballI)
    fix y a
    assume y: "y \<in> set (observe ?db' sid xs)" and a: "a \<in> set (status_of db sid)"
    then have "status_of db sid \<noteq> []" by auto
    then have "status_of ?db' sid \<noteq> []" by (rule step_stays)
    then obtain b where b: "b \<in> set (status_of ?db' sid)"
      by (cases "status_of ?db' sid") auto
    from step a b have "status_rank a \<le> status_rank b" by blast
    also from IH y b have "status_rank b \<le> status_rank y" by blast
    finally show "status_rank a \<le> status_rank y" .
  qed
  have "length (status_of db sid) \<le> 1" by (rule status_of_short)
  then have shape: "status_of db sid = [] \<or> (\<exists>a. status_of db sid = [a])"
    by (cases "status_of db sid") auto
  have obs: "observe db sid (x # xs) = status_of db sid @ observe ?db' sid xs" by simp
  from shape show ?case
  proof
    assume "status_of db sid = []"
    with IH obs show ?thesis by simp
  next
    assume "\<exists>a. status_of db sid = [a]"
    then obtain a where a: "status_of db sid = [a]" ..
    with Cons.prems(1) have "lifecycle [a]" by simp
    with IH bound a obs show ?thesis by simp
  qed
qed

text \<open>
  C2, as the code has it. Take a session that is absent, active or completed, and any run
  of \<open>create_session\<close>, \<open>end_session\<close> and \<open>update_session_summary\<close> on it in which no
  \<open>end_session\<close> comes after an \<open>update_session_summary\<close>. Then the statuses observed
  before the run and after each operation are among \<open>active\<close>, \<open>completed\<close>,
  \<open>summarized\<close> and never decrease in that order. Whatever the status was before, every
  \<open>end_session\<close> whose two store calls go through writes \<open>end_time\<close>,
  \<open>duration_seconds\<close> and \<open>status = completed\<close>, and every \<open>update_session_summary\<close> whose
  store call goes through writes \<open>summary\<close> and \<open>status = summarized\<close>.
\<close>

theorem status_monotone_until_summary:
  assumes "set (status_of db sid) \<subseteq> {''active'', ''completed''}"
    and "end_before_summary ops"
  shows "sorted (map status_rank (observe db sid ops))
         \<and> set (observe db sid ops) \<subseteq> {''active'', ''completed'', ''summarized''}
         \<and> (\<forall>d now s. sessions d sid = Some s \<and> calls_succeed 2 d \<longrightarrow>
               sessions (apply_op d sid (EndSession now)) sid
                 = Some (s\<lparr>end_time := Some now,
                           duration_seconds := Some (py_int (total_seconds (now - start_time s))),
                           status := ''completed''\<rparr>))
         \<and> (\<forall>d smry s. sessions d sid = Some s \<and> calls_succeed 1 d \<longrightarrow>
               sessions (apply_op d sid (UpdateSummary smry)) sid
                 = Some (s\<lparr>summary := Some smry, status := ''summarized''\<rparr>))"
proof -
  have shape: "status_of db sid = [] \<or> (\<exists>a. status_of db sid = [a])"
    using status_of_short [of db sid] by (cases "status_of db sid") auto
  with assms(1) have k: "lifecycle (status_of db sid)"
    by (auto simp: lifecycle_def)
  from assms(1) have g: "status_of db sid = [''summarized''] \<longrightarrow> \<not> list_ex is_end ops"
    by auto
  from observe_monotone [OF k g assms(2)]
  have sorted: "sorted (map status_rank (observe db sid ops))"
    and all: "list_all (\<lambda>st. lifecycle [st]) (observe db sid ops)"
    by simp_all
  from all have valid: "set (observe db sid ops) \<subseteq> {''active'', ''completed'', ''summarized''}"
    by (auto simp: list_all_iff lifecycle_single)
  have ended: "\<forall>d now s. sessions d sid = Some s \<and> calls_succeed 2 d \<longrightarrow>
               sessions (apply_op d sid (EndSession now)) sid
                 = Some (s\<lparr>end_time := Some now,
                           duration_seconds := Some (py_int (total_seconds (now - start_time s))),
                           status := ''completed''\<rparr>)"
    by (simp add: end_session_sessions)
  have summarized: "\<forall>d smry s. sessions d sid = Some s \<and> calls_succeed 1 d \<longrightarrow>
               sessions (apply_op d sid (UpdateSummary smry)) sid
                 = Some (s\<lparr>summary := Some smry, status := ''summarized''\<rparr>)"
    by (simp add: update_session_summary_sessions calls_succeed_one)
  from sorted valid ended summarized show ?thesis by blast
qed

text \<open>
  C2 as stated fails: an \<open>end_session\<close> on a summarized session takes it back to
  \<open>completed\<close>. (And \<open>update_session_summary\<close> on an active session goes to
  \<open>summarized\<close> at once.)
\<close>

theorem status_reverts_after_summary:
  "observe empty_store ''s1''
     [CreateSession ''user_s1'' 1000000, EndSession 3500000,
      UpdateSummary ''A short talk.'', EndSession 4000000]
     = [''active'', ''completed'', ''summarized'', ''completed'']
   \<and> \<not> sorted (map status_rank [''active'', ''completed'', ''summarized'', ''completed''])
   \<and> observe empty_store ''s1'' [CreateSession ''user_s1'' 1000000, UpdateSummary ''A short talk.'']
     = [''active'', ''summarized'']"
  by code_simp

theorem status_monotone_until_summary_witness:
  "set (status_of empty_store ''s1'') \<subseteq> {''active'', ''completed''}
   \<and> end_before_summary [CreateSession ''user_s1'' 1000000, EndSession 3500000,
        EndSession 4000000, UpdateSummary ''A short talk.'', UpdateSummary ''Another.'']
   \<and> sorted (map status_rank (observe empty_store ''s1''
        [CreateSession ''user_s1'' 1000000, EndSession 3500000,
         EndSession 4000000, UpdateSummary ''A short talk.'', UpdateSummary ''Another.'']))
   \<and> observe empty_store ''s1''
        [CreateSession ''user_s1'' 1000000, EndSession 3500000,
         EndSession 4000000, UpdateSummary ''A short talk.'', UpdateSummary ''Another.'']
       = [''active'', ''completed'', ''completed'', ''summarized'', ''summarized'']"
proof -
  let ?ops = "[CreateSession ''user_s1'' 1000000, EndSession 3500000,
        EndSession 4000000, UpdateSummary ''A short talk.'', UpdateSummary ''Another.'']"
  have h1: "set (status_of empty_store ''s1'') \<subseteq> {''active'', ''completed''}"
    by (simp add: status_of_def empty_store_def)
  have h2: "end_before_summary ?ops" by simp
  have run: "observe empty_store ''s1'' ?ops
       = [''active'', ''completed'', ''completed'', ''summarized'', ''summarized'']"
    by code_simp
  from status_monotone_until_summary [OF h1 h2]
  have "sorted (map status_rank (observe empty_store ''s1'' ?ops))" by blast
  with h1 h2 run show ?thesis by blast
qed


section \<open>Post-session processing\<close>

lemma update_session_summary_ok:
  assumes "sessions db sid = Some s" and "fst (execute db) = None"
  shows "update_session_summary db sid smry =
           (Inr (Row (s\<lparr>summary := Some smry, status := ''summarized''\<rparr>)),
            (snd (execute db))\<lparr>sessions :=
               (sessions db)(sid \<mapsto> s\<lparr>summary := Some smry, status := ''summarized''\<rparr>)\<rparr>)"
  using assms by (simp add: update_session_summary_def update_session_ok)

lemma generate_summary_total: "\<exists>t llm'. generate_summary llm conversation s = (Inr t, llm')"
  by (simp add: generate_summary_def split: prod.splits sum.splits)

lemma generate_summary_failure:
  assumes "reply llm = Inl e" and "duration_seconds s = Some d"
  shows "generate_summary llm conversation s
           = (Inr (''Error generating summary: '' @ str_exn e), llm\<lparr>calls := calls llm + 1\<rparr>)"
  using assms
  by (simp add: generate_summary_def generate_summary_try_def messages_create_def Let_def)

lemma chosen_summary_total: "\<exists>t llm'. chosen_summary llm conversation s = (Inr t, llm')"
  using generate_summary_total [of llm conversation s] by (simp add: chosen_summary_def)

text \<open>
  Once the session is read, the conversation reconstructed and the update gone through,
  the summary is in the session record, whatever becomes of the two store calls that
  follow.
\<close>

lemma process_session_persists:
  assumes s: "sessions db sid = Some s" and ok: "calls_succeed 3 db"
    and sm: "chosen_summary llm (fst (get_conversation_history db sid)) s = (Inr t, llm')"
  shows "sessions (fst (process_session llm db now sid)) sid
           = Some (s\<lparr>summary := Some t, status := ''summarized''\<rparr>)
         \<and> snd (process_session llm db now sid) = llm'"
proof -
  let ?db1 = "snd (execute db)"
  let ?db2 = "snd (execute ?db1)"
  let ?db3 = "(snd (execute ?db2))\<lparr>sessions :=
               (sessions db)(sid \<mapsto> s\<lparr>summary := Some t, status := ''summarized''\<rparr>)\<rparr>"
  have three: "calls_succeed (Suc (Suc (Suc 0))) db" using ok by (simp add: numeral_3_eq_3)
  from calls_succeed_step [OF three]
  have c1: "fst (execute db) = None" and r1: "calls_succeed (Suc (Suc 0)) ?db1" by simp_all
  from calls_succeed_step [OF r1]
  have c2: "fst (execute ?db1) = None" and r2: "calls_succeed (Suc 0) ?db2" by simp_all
  from calls_succeed_step [OF r2]
  have c3: "fst (execute ?db2) = None" by simp
  have g: "get_session db sid = (Some s, ?db1)" using s c1 by (simp add: get_session_eq)
  have conv: "fst (get_conversation_history ?db1 sid) = fst (get_conversation_history db sid)"
    by (rule get_conversation_history_same) (simp_all add: c1 c2)
  have h: "get_conversation_history ?db1 sid = (fst (get_conversation_history db sid), ?db2)"
    using conv get_conversation_history_store [of ?db1 sid] by (simp add: prod_eq_iff)
  have u: "update_session_summary ?db2 sid t =
             (Inr (Row (s\<lparr>summary := Some t, status := ''summarized''\<rparr>)), ?db3)"
    using update_session_summary_ok [of ?db2 sid s t] s c3 by simp
  have sm': "(if fst (get_conversation_history db sid) = []
      then (Inr ''No conversation data available for this session.'', llm)
      else generate_summary llm (fst (get_conversation_history db sid)) s) = (Inr t, llm')"
    using sm by (simp add: chosen_summary_def)
  obtain st db4 where stats: "get_session_statistics ?db3 sid = (st, db4)"
    by (cases "get_session_statistics ?db3 sid")
  have db4: "sessions db4 = sessions ?db3"
    using get_session_statistics_store [of ?db3 sid] stats by simp
  obtain r db5 where lg: "log_event db4 now sid ''post_processing_complete''
                             [(''summary_generated'', JBool True),
                              (''summary_length'', JInt (int (length t))),
                              (''statistics'', stats_json st)] None = (Inr r, db5)"
    using log_event_total by blast
  have db5: "sessions db5 = sessions db4"
    using log_event_sessions [of db4 now sid "''post_processing_complete''"
        "[(''summary_generated'', JBool True), (''summary_length'', JInt (int (length t))),
          (''statistics'', stats_json st)]" None] lg
    by simp
  have "process_session_try llm db now sid = (Inr (), db5, llm')"
    unfolding process_session_try_def by (simp add: g h sm' u stats lg)
  then have "process_session llm db now sid = (db5, llm')"
    by (simp add: process_session_def)
  with db5 db4 show ?thesis by simp
qed

text \<open>With all five store calls going through, the run ends by logging its one event.\<close>

lemma process_session_complete:
  assumes s: "sessions db sid = Some s" and ok: "calls_succeed 5 db"
    and sm: "chosen_summary llm (fst (get_conversation_history db sid)) s = (Inr t, llm')"
  shows "session_events (fst (process_session llm db now sid))
           = session_events db @
               [\<lparr>ev_session_id = sid, event_type = ''post_processing_complete'', timestamp = now,
                 data = [(''summary_generated'', JBool True),
                         (''summary_length'', JInt (int (length t))),
                         (''statistics'', stats_json (fst (get_session_statistics db sid)))],
                 metadata = []\<rparr>]"
proof -
  let ?db1 = "snd (execute db)"
  let ?db2 = "snd (execute ?db1)"
  let ?m = "(sessions db)(sid \<mapsto> s\<lparr>summary := Some t, status := ''summarized''\<rparr>)"
  let ?db3 = "(snd (execute ?db2))\<lparr>sessions := ?m\<rparr>"
  let ?db4 = "snd (execute ?db3)"
  have five: "calls_succeed (Suc (Suc (Suc (Suc (Suc 0))))) db"
    using ok by (simp add: eval_nat_numeral)
  from calls_succeed_step [OF five]
  have c1: "fst (execute db) = None" and r1: "calls_succeed (Suc (Suc (Suc (Suc 0)))) ?db1"
    by simp_all
  from calls_succeed_step [OF r1]
  have c2: "fst (execute ?db1) = None" and r2: "calls_succeed (Suc (Suc (Suc 0))) ?db2"
    by simp_all
  from calls_succeed_step [OF r2]
  have c3: "fst (execute ?db2) = None"
    and r3: "calls_succeed (Suc (Suc 0)) (snd (execute ?db2))"
    by simp_all
  from calls_succeed_step [OF r3]
  have c4': "fst (execute (snd (execute ?db2))) = None"
    and r4: "calls_succeed (Suc 0) (snd (execute (snd (execute ?db2))))"
    by simp_all
  from calls_succeed_step [OF r4]
  have c5': "fst (execute (snd (execute (snd (execute ?db2))))) = None" by simp
  have c4: "fst (execute ?db3) = None" using c4' by (simp add: execute_update_sessions)
  have c5: "fst (execute ?db4) = None" using c5' by (simp add: execute_update_sessions)
  have g: "get_session db sid = (Some s, ?db1)" using s c1 by (simp add: get_session_eq)
  have conv: "fst (get_conversation_history ?db1 sid) = fst (get_conversation_history db sid)"
    by (rule get_conversation_history_same) (simp_all add: c1 c2)
  have h: "get_conversation_history ?db1 sid = (fst (get_conversation_history db sid), ?db2)"
    using conv get_conversation_history_store [of ?db1 sid] by (simp add: prod_eq_iff)
  have u: "update_session_summary ?db2 sid t =
             (Inr (Row (s\<lparr>summary := Some t, status := ''summarized''\<rparr>)), ?db3)"
    using update_session_summary_ok [of ?db2 sid s t] s c3 by simp
  have sm': "(if fst (get_conversation_history db sid) = []
      then (Inr ''No conversation data available for this session.'', llm)
      else generate_summary llm (fst (get_conversation_history db sid)) s) = (Inr t, llm')"
    using sm by (simp add: chosen_summary_def)
  have st: "fst (get_session_statistics ?db3 sid) = fst (get_session_statistics db sid)"
    by (rule get_session_statistics_same) (simp_all add: c1 c4)
  have stats: "get_session_statistics ?db3 sid = (fst (get_session_statistics db sid), ?db4)"
    using st get_session_statistics_store [of ?db3 sid] by (simp add: prod_eq_iff)
  note lg = log_event_ok [OF c5, of now sid "''post_processing_complete''"
      "[(''summary_generated'', JBool True), (''summary_length'', JInt (int (length t))),
        (''statistics'', stats_json (fst (get_session_statistics db sid)))]" None]
  have "session_events (fst (snd (process_session_try llm db now sid))) =
          session_events db @
               [\<lparr>ev_session_id = sid, event_type = ''post_processing_complete'', timestamp = now,
                 data = [(''summary_generated'', JBool True),
                         (''summary_length'', JInt (int (length t))),
                         (''statistics'', stats_json (fst (get_session_statistics db sid)))],
                 metadata = []\<rparr>]
        \<and> fst (process_session_try llm db now sid) = Inr ()"
    unfolding process_session_try_def by (simp add: g h sm' u stats lg)
  then show ?thesis
    by (simp add: process_session_def case_prod_beta split: sum.splits)
qed

lemma quiet_conversation: "fst (get_conversation_history quiet_store ''s1'') = []"
  by code_simp

lemma spoken_conversation:
  "fst (get_conversation_history spoken_store ''s1'')
     = [\<lparr>role = ''user'', content = JStr ''hi'', msg_timestamp = 2000000\<rparr>,
        \<lparr>role = ''assistant'', content = JStr ''hello'', msg_timestamp = 3000000\<rparr>]"
  by code_simp

text \<open>
  C5. When \<open>process_session\<close> runs for a session that exists and whose reconstructed
  conversation is empty, and its first three store calls (reading the session, reading
  the events, the update) go through, the provider is not invoked: the client comes back
  as it was, with the same number of calls. The session record then holds the
  placeholder as its summary, and its status is \<open>summarized\<close>.
\<close>

theorem empty_conversation_placeholder:
  assumes "sessions db sid = Some s" and "calls_succeed 3 db"
    and "fst (get_conversation_history db sid) = []"
  shows "snd (process_session llm db now sid) = llm
         \<and> sessions (fst (process_session llm db now sid)) sid
             = Some (s\<lparr>summary := Some ''No conversation data available for this session.'',
                       status := ''summarized''\<rparr>)"
proof -
  have "chosen_summary llm (fst (get_conversation_history db sid)) s
          = (Inr ''No conversation data available for this session.'', llm)"
    using assms(3) by (simp add: chosen_summary_def)
  from process_session_persists [OF assms(1,2) this, of now] show ?thesis by simp
qed

theorem empty_conversation_placeholder_witness:
  "sessions quiet_store ''s1'' = Some ended_session
   \<and> calls_succeed 3 quiet_store
   \<and> fst (get_conversation_history quiet_store ''s1'') = []
   \<and> snd (process_session \<lparr>reply = Inr [''A short talk.''], calls = 0\<rparr> quiet_store 5000000 ''s1'')
        = \<lparr>reply = Inr [''A short talk.''], calls = 0\<rparr>
   \<and> sessions (fst (process_session \<lparr>reply = Inr [''A short talk.''], calls = 0\<rparr>
                       quiet_store 5000000 ''s1'')) ''s1''
        = Some (ended_session\<lparr>summary := Some ''No conversation data available for this session.'',
                       status := ''summarized''\<rparr>)"
proof -
  have h1: "sessions quiet_store ''s1'' = Some ended_session" by (simp add: quiet_store_def)
  have h2: "calls_succeed 3 quiet_store" by (simp add: calls_succeed_def quiet_store_def)
  note h3 = quiet_conversation
  from empty_conversation_placeholder [OF h1 h2 h3] h1 h2 h3 show ?thesis by simp
qed

text \<open>
  C9. When the provider call fails with an exception \<open>e\<close> (the call is reached: the
  session has a duration), \<open>generate_summary\<close> does not raise: it returns the text
  \<open>Error generating summary: \<close> followed by the message of \<open>e\<close>. When \<open>process_session\<close>
  runs for such a session with a conversation, its first three store calls going through,
  that text is stored as the session's summary and the status is \<open>summarized\<close>.
\<close>

theorem provider_failure_is_summarized:
  assumes "reply llm = Inl e" and "duration_seconds s = Some d"
  shows "generate_summary llm conversation s
           = (Inr (''Error generating summary: '' @ str_exn e), llm\<lparr>calls := calls llm + 1\<rparr>)
         \<and> (sessions db sid = Some s \<and> calls_succeed 3 db
              \<and> fst (get_conversation_history db sid) \<noteq> []
            \<longrightarrow> sessions (fst (process_session llm db now sid)) sid
                  = Some (s\<lparr>summary := Some (''Error generating summary: '' @ str_exn e),
                            status := ''summarized''\<rparr>))"
proof (intro conjI impI)
  show "generate_summary llm conversation s
           = (Inr (''Error generating summary: '' @ str_exn e), llm\<lparr>calls := calls llm + 1\<rparr>)"
    using assms by (rule generate_summary_failure)
next
  assume a: "sessions db sid = Some s \<and> calls_succeed 3 db
              \<and> fst (get_conversation_history db sid) \<noteq> []"
  then have "chosen_summary llm (fst (get_conversation_history db sid)) s
          = (Inr (''Error generating summary: '' @ str_exn e), llm\<lparr>calls := calls llm + 1\<rparr>)"
    using generate_summary_failure [OF assms] by (simp add: chosen_summary_def)
  with a process_session_persists [of db sid s llm _ _ now]
  show "sessions (fst (process_session llm db now sid)) sid
                  = Some (s\<lparr>summary := Some (''Error generating summary: '' @ str_exn e),
                            status := ''summarized''\<rparr>)"
    by blast
qed

theorem provider_failure_is_summarized_witness:
  "reply \<lparr>reply = Inl (APIError ''overloaded''), calls = 0\<rparr> = Inl (APIError ''overloaded'')
   \<and> duration_seconds ended_session = Some 2
   \<and> sessions spoken_store ''s1'' = Some ended_session
   \<and> calls_succeed 3 spoken_store
   \<and> fst (get_conversation_history spoken_store ''s1'') \<noteq> []
   \<and> generate_summary \<lparr>reply = Inl (APIError ''overloaded''), calls = 0\<rparr>
        (fst (get_conversation_history spoken_store ''s1'')) ended_session
       = (Inr ''Error generating summary: overloaded'',
          \<lparr>reply = Inl (APIError ''overloaded''), calls = 1\<rparr>)
   \<and> sessions (fst (process_session \<lparr>reply = Inl (APIError ''overloaded''), calls = 0\<rparr>
                       spoken_store 5000000 ''s1'')) ''s1''
       = Some (ended_session\<lparr>summary := Some ''Error generating summary: overloaded'',
                              status := ''summarized''\<rparr>)"
proof -
  let ?llm = "\<lparr>reply = Inl (APIError ''overloaded''), calls = 0\<rparr>"
  have h1: "reply ?llm = Inl (APIError ''overloaded'')" by simp
  have h2: "duration_seconds ended_session = Some 2" by (simp add: ended_session_def)
  have h3: "sessions spoken_store ''s1'' = Some ended_session" by (simp add: spoken_store_def)
  have h4: "calls_succeed 3 spoken_store" by (simp add: calls_succeed_def spoken_store_def)
  have h5: "fst (get_conversation_history spoken_store ''s1'') \<noteq> []"
    by (simp add: spoken_conversation)
  from provider_failure_is_summarized [OF h1 h2,
         of "fst (get_conversation_history spoken_store ''s1'')" spoken_store "''s1''" 5000000]
       h1 h2 h3 h4 h5
  show ?thesis by simp
qed

text \<open>
  C6, as the code has it. When \<open>process_session\<close> runs for a session that exists and all
  five of its store calls go through, it appends exactly one event to the log, of type
  \<open>post_processing_complete\<close>, whose data holds \<open>summary_generated\<close>, which is always
  \<open>True\<close>, the length of the summary that is now in the session record, and the
  statistics of the session (taken before this event is logged).
\<close>

theorem post_processing_complete_event:
  assumes "sessions db sid = Some s" and "calls_succeed 5 db"
  shows "\<exists>t. sessions (fst (process_session llm db now sid)) sid
                = Some (s\<lparr>summary := Some t, status := ''summarized''\<rparr>)
             \<and> session_events (fst (process_session llm db now sid))
                = session_events db @
                    [\<lparr>ev_session_id = sid, event_type = ''post_processing_complete'',
                      timestamp = now,
                      data = [(''summary_generated'', JBool True),
                              (''summary_length'', JInt (int (length t))),
                              (''statistics'',
                               stats_json (fst (get_session_statistics db sid)))],
                      metadata = []\<rparr>]"
proof -
  obtain t llm'
    where sm: "chosen_summary llm (fst (get_conversation_history db sid)) s = (Inr t, llm')"
    using chosen_summary_total by blast
  have three: "calls_succeed 3 db"
    using assms(2) by (rule calls_succeed_mono [rotated]) simp
  from process_session_persists [OF assms(1) three sm, of now]
       process_session_complete [OF assms sm, of now]
  show ?thesis by blast
qed

text \<open>
  C6 as stated fails: \<open>summary_generated\<close> does not tell the placeholder from a generated
  summary. It is \<open>True\<close> for the session without a conversation, where the provider was
  not called and the placeholder was stored, as it is for the session with one.
\<close>

theorem summary_generated_always_true:
  "dict_get (data (last (session_events (fst (process_session
       \<lparr>reply = Inr [''A short talk.''], calls = 0\<rparr> quiet_store 5000000 ''s1'')))))
     ''summary_generated'' JNull = JBool True
   \<and> calls (snd (process_session \<lparr>reply = Inr [''A short talk.''], calls = 0\<rparr>
                   quiet_store 5000000 ''s1'')) = 0
   \<and> map_option summary (sessions (fst (process_session
       \<lparr>reply = Inr [''A short talk.''], calls = 0\<rparr> quiet_store 5000000 ''s1'')) ''s1'')
       = Some (Some ''No conversation data available for this session.'')
   \<and> dict_get (data (last (session_events (fst (process_session
       \<lparr>reply = Inr [''A short talk.''], calls = 0\<rparr> spoken_store 5000000 ''s1'')))))
     ''summary_generated'' JNull = JBool True
   \<and> calls (snd (process_session \<lparr>reply = Inr [''A short talk.''], calls = 0\<rparr>
                   spoken_store 5000000 ''s1'')) = 1
   \<and> map_option summary (sessions (fst (process_session
       \<lparr>reply = Inr [''A short talk.''], calls = 0\<rparr> spoken_store 5000000 ''s1'')) ''s1'')
       = Some (Some ''A short talk.'')"
  by code_simp

theorem post_processing_complete_event_witness:
  "sessions spoken_store ''s1'' = Some ended_session
   \<and> calls_succeed 5 spoken_store
   \<and> (\<exists>t. sessions (fst (process_session \<lparr>reply = Inr [''A short talk.''], calls = 0\<rparr>
                             spoken_store 5000000 ''s1'')) ''s1''
                = Some (ended_session\<lparr>summary := Some t, status := ''summarized''\<rparr>)
             \<and> session_events (fst (process_session \<lparr>reply = Inr [''A short talk.''], calls = 0\<rparr>
                                       spoken_store 5000000 ''s1''))
                = session_events spoken_store @
                    [\<lparr>ev_session_id = ''s1'', event_type = ''post_processing_complete'',
                      timestamp = 5000000,
                      data = [(''summary_generated'', JBool True),
                              (''summary_length'', JInt (int (length t))),
                              (''statistics'',
                               stats_json (fst (get_session_statistics spoken_store ''s1'')))],
                      metadata = []\<rparr>])"
proof -
  have h1: "sessions spoken_store ''s1'' = Some ended_session" by (simp add: spoken_store_def)
  have h2: "calls_succeed 5 spoken_store" by (simp add: calls_succeed_def spoken_store_def)
  from post_processing_complete_event [OF h1 h2, of "\<lparr>reply = Inr [''A short talk.''], calls = 0\<rparr>" 5000000]
       h1 h2
  show ?thesis by blast
qed


section \<open>Statistics of the stored log\<close>

lemma filter_sorted_length:
  "length (filter P (sort_key f xs)) = length (filter P xs)"
  by (simp add: filter_sort)

text \<open>
  C7. Let the stored events of a session hold \<open>u\<close> user messages, \<open>a\<close> assistant
  responses, \<open>f\<close> function calls and \<open>t\<close> events of other types. When the read of the
  store goes through, \<open>get_session_statistics\<close> gives \<open>total_events = u + a + f + t\<close>, the
  number of stored events of the session, and the three counts \<open>u\<close>, \<open>a\<close>, \<open>f\<close>;
  \<open>event_types\<close> has each type once, with the number of stored events of that type, and
  its counts add up to \<open>total_events\<close>. When the read fails, every count is zero and
  \<open>event_types\<close> is empty.
\<close>

theorem statistics_additivity:
  "let stored = filter (\<lambda>e. ev_session_id e = sid) (session_events db);
       st = fst (get_session_statistics db sid);
       u = length (filter (\<lambda>e. event_type e = ''user_message'') stored);
       a = length (filter (\<lambda>e. event_type e = ''assistant_response'') stored);
       f = length (filter (\<lambda>e. event_type e = ''function_call'') stored);
       t = length (filter (\<lambda>e. event_type e \<noteq> ''user_message''
                             \<and> event_type e \<noteq> ''assistant_response''
                             \<and> event_type e \<noteq> ''function_call'') stored)
   in (calls_succeed 1 db \<longrightarrow>
         total_events st = u + a + f + t
         \<and> total_events st = length stored
         \<and> user_messages st = u \<and> assistant_responses st = a \<and> function_calls st = f
         \<and> sum_list (map snd (event_types st)) = total_events st
         \<and> distinct (map fst (event_types st))
         \<and> (\<forall>ty. dict_get (event_types st) ty 0
                     = length (filter (\<lambda>e. event_type e = ty) stored)))
      \<and> (\<not> calls_succeed 1 db \<longrightarrow>
            st = \<lparr>total_events = 0, user_messages = 0, assistant_responses = 0,
                  function_calls = 0, event_types = []\<rparr>)"
proof -
  let ?stored = "filter (\<lambda>e. ev_session_id e = sid) (session_events db)"
  have read: "fst (get_session_events db sid None) = sort_key timestamp ?stored"
    if "calls_succeed 1 db"
  proof -
    from that have "fst (execute db) = None" by (simp add: calls_succeed_one)
    then show ?thesis by (simp add: get_session_events_all)
  qed
  have failed: "fst (get_session_events db sid None) = []" if "\<not> calls_succeed 1 db"
  proof -
    from that have "fst (execute db) \<noteq> None" by (simp add: calls_succeed_one)
    then show ?thesis by (auto simp: get_session_events_all split: option.splits)
  qed
  have ok: "total_events (fst (get_session_statistics db sid))
              = length (filter (\<lambda>e. event_type e = ''user_message'') ?stored)
                + length (filter (\<lambda>e. event_type e = ''assistant_response'') ?stored)
                + length (filter (\<lambda>e. event_type e = ''function_call'') ?stored)
                + length (filter (\<lambda>e. event_type e \<noteq> ''user_message''
                             \<and> event_type e \<noteq> ''assistant_response''
                             \<and> event_type e \<noteq> ''function_call'') ?stored)
            \<and> total_events (fst (get_session_statistics db sid)) = length ?stored
            \<and> user_messages (fst (get_session_statistics db sid))
                = length (filter (\<lambda>e. event_type e = ''user_message'') ?stored)
            \<and> assistant_responses (fst (get_session_statistics db sid))
                = length (filter (\<lambda>e. event_type e = ''assistant_response'') ?stored)
            \<and> function_calls (fst (get_session_statistics db sid))
                = length (filter (\<lambda>e. event_type e = ''function_call'') ?stored)
            \<and> sum_list (map snd (event_types (fst (get_session_statistics db sid))))
                = total_events (fst (get_session_statistics db sid))
            \<and> distinct (map fst (event_types (fst (get_session_statistics db sid))))
            \<and> (\<forall>ty. dict_get (event_types (fst (get_session_statistics db sid))) ty 0
                     = length (filter (\<lambda>e. event_type e = ty) ?stored))"
    if c: "calls_succeed 1 db"
    unfolding statistics_of_events Let_def read [OF c]
    using length_by_kind [of ?stored]
    by (simp add: count_type_length count_event_types_sum count_event_types_distinct
          count_event_types_get dict_get_empty filter_sorted_length)
  have zero: "fst (get_session_statistics db sid)
                = \<lparr>total_events = 0, user_messages = 0, assistant_responses = 0,
                   function_calls = 0, event_types = []\<rparr>"
    if c: "\<not> calls_succeed 1 db"
    unfolding statistics_of_events Let_def failed [OF c]
    by (simp add: count_type_def)
  from ok zero show ?thesis unfolding Let_def by blast
qed

theorem statistics_additivity_witness:
  "calls_succeed 1 busy_store
   \<and> total_events (fst (get_session_statistics busy_store ''s1'')) = 5
   \<and> user_messages (fst (get_session_statistics busy_store ''s1'')) = 1
   \<and> assistant_responses (fst (get_session_statistics busy_store ''s1'')) = 1
   \<and> function_calls (fst (get_session_statistics busy_store ''s1'')) = 1
   \<and> sum_list (map snd (event_types (fst (get_session_statistics busy_store ''s1'')))) = 5
   \<and> dict_get (event_types (fst (get_session_statistics busy_store ''s1''))) ''session_end'' 0 = 1
   \<and> length (session_events busy_store) = 6"
proof -
  have h: "calls_succeed 1 busy_store"
    by (simp add: calls_succeed_def busy_store_def spoken_store_def)
  have stored: "filter (\<lambda>e. ev_session_id e = ''s1'') (session_events busy_store)
                  = session_events spoken_store
                      @ [\<lparr>ev_session_id = ''s1'', event_type = ''function_call'',
                          timestamp = 2200000,
                          data = [(''function_name'', JStr ''get_weather'')], metadata = []\<rparr>]"
    by (simp add: busy_store_def spoken_store_def)
  from statistics_additivity [of "''s1''" busy_store] h
  show ?thesis
    unfolding Let_def stored
    by (simp add: spoken_store_def) (simp add: busy_store_def spoken_store_def)
qed

end
